theory Spec2Isabelle
  imports Main
begin

section \<open>The task entity: app/models/task.py\<close>

text \<open>
  \<^verbatim>\<open>class TaskStatus(enum.Enum)\<close> has three members; the value of each member is the
  string of the same spelling.
\<close>

datatype TaskStatus = PENDING | IN_PROGRESS | COMPLETED

fun TaskStatus_value :: "TaskStatus \<Rightarrow> string" where
  "TaskStatus_value PENDING = ''PENDING''"
| "TaskStatus_value IN_PROGRESS = ''IN_PROGRESS''"
| "TaskStatus_value COMPLETED = ''COMPLETED''"

text \<open>
  Python attributes are untyped. The three attributes of a row that a client can set
  hold \<^verbatim>\<open>None\<close>, a \<^verbatim>\<open>str\<close> or a member of the enum; nothing in the class
  \<^verbatim>\<open>Task\<close> restricts which.
\<close>

datatype pyval = PyNone | PyStr string | PyEnum TaskStatus

text \<open>
  A timestamp is kept as its ISO-8601 text, the form in which a response carries it.
  No operation of the program computes with timestamps.
\<close>

type_synonym datetime = string

record Task =
  id :: "int option"
  title :: pyval
  description :: pyval
  status :: pyval
  created_at :: "datetime option"
  updated_at :: "datetime option"

text \<open>
  \<^verbatim>\<open>setattr(db_task, key, value)\<close> for the keys a schema dictionary can hold. A key
  that names no column does not reach the row.
\<close>

definition setattr :: "Task \<Rightarrow> string \<Rightarrow> pyval \<Rightarrow> Task" where
  "setattr t key v =
     (if key = ''title'' then t\<lparr>Task.title := v\<rparr>
      else if key = ''description'' then t\<lparr>Task.description := v\<rparr>
      else if key = ''status'' then t\<lparr>Task.status := v\<rparr>
      else t)"

text \<open>
  \<^verbatim>\<open>Task(**kwargs)\<close>: the declarative constructor sets one attribute for each keyword;
  every other column attribute reads \<^verbatim>\<open>None\<close> until the row is flushed.
\<close>

definition Task_init :: "(string \<times> pyval) list \<Rightarrow> Task" where
  "Task_init kwargs =
     fold (\<lambda>(key, v) t. setattr t key v) kwargs
       \<lparr>Task.id = None, Task.title = PyNone, Task.description = PyNone,
        Task.status = PyNone, Task.created_at = None, Task.updated_at = None\<rparr>"

section \<open>Request and response schemas: app/schemas/task.py\<close>

text \<open>
  A request body after \<^verbatim>\<open>json.loads\<close>. Numbers are integers here: every field of the
  schema rejects a number, whatever its kind. An object is the list of its members in
  the order of the text; Python keeps the last value of a repeated key.
\<close>

datatype json = JNull | JBool bool | JInt int | JStr string
  | JArr "json list" | JObj "(string \<times> json) list"

definition get_item :: "(string \<times> json) list \<Rightarrow> string \<Rightarrow> json option" where
  "get_item members key = map_of (rev members) key"

text \<open>
  \<^verbatim>\<open>TaskBase\<close>: \<^verbatim>\<open>title\<close> is required, \<^verbatim>\<open>description\<close> defaults to \<^verbatim>\<open>None\<close>,
  \<^verbatim>\<open>status\<close> defaults to \<^verbatim>\<open>TaskStatus.PENDING\<close>. A model instance remembers in
  \<^verbatim>\<open>fields_set\<close> which fields the input supplied. \<^verbatim>\<open>TaskCreate\<close> and
  \<^verbatim>\<open>TaskUpdate\<close> add nothing to it; \<^verbatim>\<open>TaskResponse\<close> extends it.
\<close>

record TaskBase =
  title :: string
  description :: "string option"
  status :: TaskStatus
  fields_set :: "string set"

type_synonym TaskCreate = TaskBase

type_synonym TaskUpdate = TaskBase

record TaskResponse = TaskBase +
  id :: int
  created_at :: datetime
  updated_at :: "datetime option"

text \<open>
  Validation errors, named after the error types of the validation library, each with the
  field it is about.
\<close>

datatype verror =
    Missing string
  | StringType string
  | EnumError string
  | IntParsing string
  | DatetimeType string
  | ModelType

definition errors_of :: "verror + 'a \<Rightarrow> verror list" where
  "errors_of r = (case r of Inl e \<Rightarrow> [e] | Inr _ \<Rightarrow> [])"

text \<open>
  The field validators on JSON input. The schema's \<^verbatim>\<open>Config\<close> uses
  \<^verbatim>\<open>from_attributes\<close>, the name of version 2 of the validation library, whose
  \<^verbatim>\<open>str\<close> validator accepts a string and nothing else, and whose enum validator accepts
  the value of a member.
\<close>

fun validate_str :: "string \<Rightarrow> json \<Rightarrow> verror + string" where
  "validate_str loc (JStr s) = Inr s"
| "validate_str loc _ = Inl (StringType loc)"

fun validate_optional_str :: "string \<Rightarrow> json \<Rightarrow> verror + string option" where
  "validate_optional_str loc JNull = Inr None"
| "validate_optional_str loc (JStr s) = Inr (Some s)"
| "validate_optional_str loc _ = Inl (StringType loc)"

definition TaskStatus_of_value :: "string \<Rightarrow> string \<Rightarrow> verror + TaskStatus" where
  "TaskStatus_of_value loc s =
     (if s = ''PENDING'' then Inr PENDING
      else if s = ''IN_PROGRESS'' then Inr IN_PROGRESS
      else if s = ''COMPLETED'' then Inr COMPLETED
      else Inl (EnumError loc))"

fun validate_TaskStatus :: "string \<Rightarrow> json \<Rightarrow> verror + TaskStatus" where
  "validate_TaskStatus loc (JStr s) = TaskStatus_of_value loc s"
| "validate_TaskStatus loc _ = Inl (EnumError loc)"

text \<open>
  Validation of a request body against \<^verbatim>\<open>TaskBase\<close> (so against \<^verbatim>\<open>TaskCreate\<close> and
  \<^verbatim>\<open>TaskUpdate\<close>). \<^verbatim>\<open>None\<close> is a request without a body. Members that the schema
  does not declare are ignored. All errors are collected.
\<close>

definition TaskBase_validate :: "json option \<Rightarrow> verror list + TaskBase" where
  "TaskBase_validate body =
     (case body of
        None \<Rightarrow> Inl [Missing ''body'']
      | Some (JObj members) \<Rightarrow>
          (let r_title = (case get_item members ''title'' of
                            None \<Rightarrow> Inl (Missing ''title'')
                          | Some v \<Rightarrow> validate_str ''title'' v);
               r_description = (case get_item members ''description'' of
                            None \<Rightarrow> Inr None
                          | Some v \<Rightarrow> validate_optional_str ''description'' v);
               r_status = (case get_item members ''status'' of
                            None \<Rightarrow> Inr PENDING
                          | Some v \<Rightarrow> validate_TaskStatus ''status'' v)
           in (case (r_title, r_description, r_status) of
                 (Inr t, Inr d, Inr s) \<Rightarrow>
                   Inr \<lparr>TaskBase.title = t, TaskBase.description = d, TaskBase.status = s,
                        fields_set = set (filter (\<lambda>key. get_item members key \<noteq> None)
                                       [''title'', ''description'', ''status''])\<rparr>
               | _ \<Rightarrow> Inl (errors_of r_title @ errors_of r_description @ errors_of r_status)))
      | Some _ \<Rightarrow> Inl [ModelType])"

text \<open>
  \<^verbatim>\<open>model.dict(exclude_unset=...)\<close>: the fields in declaration order; with
  \<^verbatim>\<open>exclude_unset\<close> only those the input supplied.
\<close>

definition TaskBase_dict :: "bool \<Rightarrow> TaskBase \<Rightarrow> (string \<times> pyval) list" where
  "TaskBase_dict exclude_unset m =
     filter (\<lambda>(key, v). \<not> exclude_unset \<or> key \<in> fields_set m)
       [(''title'', PyStr (TaskBase.title m)),
        (''description'', (case TaskBase.description m of None \<Rightarrow> PyNone | Some s \<Rightarrow> PyStr s)),
        (''status'', PyEnum (TaskBase.status m))]"

text \<open>
  Building a \<^verbatim>\<open>TaskResponse\<close> from the attributes of a row, as
  \<^verbatim>\<open>response_model=TaskResponse\<close> does with the object a route returns.
\<close>

definition attr_str :: "string \<Rightarrow> pyval \<Rightarrow> verror + string" where
  "attr_str loc v = (case v of PyStr s \<Rightarrow> Inr s | _ \<Rightarrow> Inl (StringType loc))"

definition attr_optional_str :: "string \<Rightarrow> pyval \<Rightarrow> verror + string option" where
  "attr_optional_str loc v =
     (case v of PyNone \<Rightarrow> Inr None | PyStr s \<Rightarrow> Inr (Some s) | _ \<Rightarrow> Inl (StringType loc))"

definition attr_TaskStatus :: "string \<Rightarrow> pyval \<Rightarrow> verror + TaskStatus" where
  "attr_TaskStatus loc v =
     (case v of PyEnum s \<Rightarrow> Inr s | PyStr s \<Rightarrow> TaskStatus_of_value loc s
      | PyNone \<Rightarrow> Inl (EnumError loc))"

definition TaskResponse_from_attributes :: "Task \<Rightarrow> verror list + TaskResponse" where
  "TaskResponse_from_attributes t =
     (let r_title = attr_str ''title'' (Task.title t);
          r_description = attr_optional_str ''description'' (Task.description t);
          r_status = attr_TaskStatus ''status'' (Task.status t);
          r_id = (case Task.id t of None \<Rightarrow> Inl (IntParsing ''id'') | Some i \<Rightarrow> Inr i);
          r_created = (case Task.created_at t of
                         None \<Rightarrow> Inl (DatetimeType ''created_at'') | Some c \<Rightarrow> Inr c)
      in (case (r_title, r_description, r_status, r_id, r_created) of
            (Inr ti, Inr d, Inr s, Inr i, Inr c) \<Rightarrow>
              Inr \<lparr>TaskBase.title = ti, TaskBase.description = d, TaskBase.status = s,
                   fields_set = {''title'', ''description'', ''status'', ''id'',
                                 ''created_at'', ''updated_at''},
                   TaskResponse.id = i, TaskResponse.created_at = c,
                   TaskResponse.updated_at = Task.updated_at t\<rparr>
          | _ \<Rightarrow> Inl (errors_of r_title @ errors_of r_description @ errors_of r_status
                      @ errors_of r_id @ errors_of r_created)))"

text \<open>The JSON form of a response model: every field, the enum by its value.\<close>

definition jsonable :: "TaskResponse \<Rightarrow> json" where
  "jsonable r =
     JObj [(''title'', JStr (TaskBase.title r)),
           (''description'', (case TaskBase.description r of None \<Rightarrow> JNull | Some s \<Rightarrow> JStr s)),
           (''status'', JStr (TaskStatus_value (TaskBase.status r))),
           (''id'', JInt (TaskResponse.id r)),
           (''created_at'', JStr (TaskResponse.created_at r)),
           (''updated_at'', (case TaskResponse.updated_at r of None \<Rightarrow> JNull | Some u \<Rightarrow> JStr u))]"

section \<open>The persistence session\<close>

text \<open>
  Modelled from the spec: app/database/connection.py (the engine and \<^verbatim>\<open>get_db\<close>) is not
  among the sources. The spec's persistence gateway gives one table with one row per
  task, an \<^verbatim>\<open>id\<close> that the store assigns on creation, and the primitives
  \<^verbatim>\<open>find_all\<close>, \<^verbatim>\<open>find_by_id\<close>, \<^verbatim>\<open>insert\<close>, \<^verbatim>\<open>apply_and_commit\<close> and
  \<^verbatim>\<open>delete\<close>, each mutation committing at once and none of them failing. The table is
  the list of its rows in insertion order; \<^verbatim>\<open>autoincrement\<close> is the next id the store
  assigns.
\<close>

record Session =
  tasks :: "Task list"
  autoincrement :: int

text \<open>Modelled from the spec: \<^verbatim>\<open>find_all() -> sequence of task\<close>, for \<^verbatim>\<open>db.query(Task).all()\<close>.\<close>

definition find_all :: "Session \<Rightarrow> Task list" where
  "find_all db = tasks db"

text \<open>
  Modelled from the spec: \<^verbatim>\<open>find_by_id(id) -> task|absent\<close>, for
  \<^verbatim>\<open>db.query(Task).filter(Task.id == task_id).first()\<close>.
\<close>

definition find_by_id :: "Session \<Rightarrow> int \<Rightarrow> Task option" where
  "find_by_id db task_id = find (\<lambda>t. Task.id t = Some task_id) (tasks db)"

text \<open>
  Modelled from the spec: \<^verbatim>\<open>insert(task) -> task_with_id\<close>, for \<^verbatim>\<open>db.add\<close>,
  \<^verbatim>\<open>db.commit\<close>, \<^verbatim>\<open>db.refresh\<close>. The store assigns \<^verbatim>\<open>id\<close>; the column defaults of
  app/models/task.py apply: \<^verbatim>\<open>status\<close> becomes \<^verbatim>\<open>PENDING\<close> when the object holds
  \<^verbatim>\<open>None\<close> for it, \<^verbatim>\<open>created_at\<close> is the server's \<^verbatim>\<open>now()\<close>, \<^verbatim>\<open>updated_at\<close>
  has no default.
\<close>

definition insert_task :: "datetime \<Rightarrow> Session \<Rightarrow> Task \<Rightarrow> Task \<times> Session" where
  "insert_task now db t =
     (let t' = t\<lparr>Task.id := Some (autoincrement db),
                 Task.status := (if Task.status t = PyNone then PyEnum PENDING else Task.status t),
                 Task.created_at := Some now\<rparr>
      in (t', db\<lparr>tasks := tasks db @ [t'], autoincrement := autoincrement db + 1\<rparr>))"

text \<open>
  Modelled from the spec: \<^verbatim>\<open>apply_and_commit(task)\<close>, for \<^verbatim>\<open>db.commit\<close> and
  \<^verbatim>\<open>db.refresh\<close> after the attributes of a loaded object were set. \<^verbatim>\<open>loaded\<close> is the
  object as the query returned it. An object without net change issues no UPDATE;
  otherwise the row with its id is rewritten and \<^verbatim>\<open>onupdate=func.now()\<close> of
  app/models/task.py sets \<^verbatim>\<open>updated_at\<close>.
\<close>

definition apply_and_commit :: "datetime \<Rightarrow> Session \<Rightarrow> Task \<Rightarrow> Task \<Rightarrow> Task \<times> Session" where
  "apply_and_commit now db loaded t =
     (if t = loaded then (t, db)
      else (let t' = t\<lparr>Task.updated_at := Some now\<rparr>
            in (t', db\<lparr>tasks := map (\<lambda>r. if Task.id r = Task.id t then t' else r) (tasks db)\<rparr>)))"

text \<open>
  Modelled from the spec: \<^verbatim>\<open>delete(task)\<close>, for \<^verbatim>\<open>db.delete\<close> and \<^verbatim>\<open>db.commit\<close>:
  the row with the object's id is removed.
\<close>

definition delete_row :: "Session \<Rightarrow> Task \<Rightarrow> Session" where
  "delete_row db t = db\<lparr>tasks := filter (\<lambda>r. Task.id r \<noteq> Task.id t) (tasks db)\<rparr>"

section \<open>The task service\<close>

text \<open>
  The static methods of \<^verbatim>\<open>TaskService\<close> in \<^verbatim>\<open>app/services/task_service.py\<close>.
  Every method takes the session and returns its result with the session after the call.
  \<^verbatim>\<open>now\<close> is the store's clock at the statement.
\<close>

definition TaskService_get_all_tasks :: "Session \<Rightarrow> Task list \<times> Session" where
  "TaskService_get_all_tasks db = (find_all db, db)"

definition TaskService_get_task :: "Session \<Rightarrow> int \<Rightarrow> Task option \<times> Session" where
  "TaskService_get_task db task_id = (find_by_id db task_id, db)"

definition TaskService_create_task :: "datetime \<Rightarrow> Session \<Rightarrow> TaskCreate \<Rightarrow> Task \<times> Session" where
  "TaskService_create_task now db task =
     (let db_task = Task_init (TaskBase_dict False task)
      in insert_task now db db_task)"

definition TaskService_update_task ::
  "datetime \<Rightarrow> Session \<Rightarrow> int \<Rightarrow> TaskUpdate \<Rightarrow> Task option \<times> Session" where
  "TaskService_update_task now db task_id task =
     (case find_by_id db task_id of
        Some db_task \<Rightarrow>
          (let db_task' = fold (\<lambda>(key, v) t. setattr t key v) (TaskBase_dict True task) db_task;
               (refreshed, db') = apply_and_commit now db db_task db_task'
           in (Some refreshed, db'))
      | None \<Rightarrow> (None, db))"

definition TaskService_delete_task :: "Session \<Rightarrow> int \<Rightarrow> bool \<times> Session" where
  "TaskService_delete_task db task_id =
     (case find_by_id db task_id of
        Some db_task \<Rightarrow> (True, delete_row db db_task)
      | None \<Rightarrow> (False, db))"

section \<open>The routes: app/routers/tasks.py\<close>

text \<open>
  What a route can raise: \<^verbatim>\<open>HTTPException\<close> from the route's own code, a request
  validation error when the body or a path parameter does not fit the declared type, a
  response validation error when the returned object does not fit \<^verbatim>\<open>response_model\<close>.
\<close>

datatype exc =
    HTTPException nat string
  | RequestValidationError "verror list"
  | ResponseValidationError "verror list"

definition serialize_task :: "Task \<Rightarrow> exc + json" where
  "serialize_task t =
     (case TaskResponse_from_attributes t of
        Inl errs \<Rightarrow> Inl (ResponseValidationError errs)
      | Inr r \<Rightarrow> Inr (jsonable r))"

definition serialize_tasks :: "Task list \<Rightarrow> exc + json" where
  "serialize_tasks ts =
     (let rs = map TaskResponse_from_attributes ts;
          errs = concat (map (\<lambda>r. case r of Inl e \<Rightarrow> e | Inr _ \<Rightarrow> []) rs)
      in if errs = []
         then Inr (JArr (concat (map (\<lambda>r. case r of Inl _ \<Rightarrow> [] | Inr v \<Rightarrow> [jsonable v]) rs)))
         else Inl (ResponseValidationError errs))"

text \<open>
  The five route functions, each with the \<^verbatim>\<open>response_model\<close> of its decorator. Their
  arguments are already of the declared types.
\<close>

definition router_get_tasks :: "Session \<Rightarrow> (exc + json) \<times> Session" where
  "router_get_tasks db =
     (let (ts, db') = TaskService_get_all_tasks db in (serialize_tasks ts, db'))"

definition router_create_task :: "datetime \<Rightarrow> TaskCreate \<Rightarrow> Session \<Rightarrow> (exc + json) \<times> Session" where
  "router_create_task now task db =
     (let (t, db') = TaskService_create_task now db task in (serialize_task t, db'))"

definition router_get_task :: "int \<Rightarrow> Session \<Rightarrow> (exc + json) \<times> Session" where
  "router_get_task task_id db =
     (let (task, db') = TaskService_get_task db task_id
      in (case task of
            None \<Rightarrow> (Inl (HTTPException 404 ''Task not found''), db')
          | Some t \<Rightarrow> (serialize_task t, db')))"

definition router_update_task ::
  "datetime \<Rightarrow> int \<Rightarrow> TaskUpdate \<Rightarrow> Session \<Rightarrow> (exc + json) \<times> Session" where
  "router_update_task now task_id task db =
     (let (updated_task, db') = TaskService_update_task now db task_id task
      in (case updated_task of
            None \<Rightarrow> (Inl (HTTPException 404 ''Task not found''), db')
          | Some t \<Rightarrow> (serialize_task t, db')))"

definition router_delete_task :: "int \<Rightarrow> Session \<Rightarrow> (exc + json) \<times> Session" where
  "router_delete_task task_id db =
     (let (deleted, db') = TaskService_delete_task db task_id
      in if \<not> deleted then (Inl (HTTPException 404 ''Task not found''), db')
         else (Inr (JObj [(''message'', JStr ''Task deleted successfully'')]), db'))"

section \<open>The application: app/main.py\<close>

datatype http_method = GET | POST | PUT | DELETE | PATCH | HEAD | OPTIONS

datatype endpoint =
  get_tasks | create_task | get_task | update_task | delete_task | health_check | root

text \<open>A request: its method (\<^verbatim>\<open>verb\<close>), its path and its parsed body, if it has one.\<close>

record request =
  verb :: http_method
  path :: string
  body :: "json option"

datatype response =
    JSONResponse nat json
  | UnprocessableEntity "verror list"
  | InternalServerError
  | RedirectResponse string

fun status_code :: "response \<Rightarrow> nat" where
  "status_code (JSONResponse code content) = code"
| "status_code (UnprocessableEntity errs) = 422"
| "status_code InternalServerError = 500"
| "status_code (RedirectResponse url) = 307"

text \<open>
  The route table. \<^verbatim>\<open>APIRouter(prefix="/tasks")\<close> puts its prefix before the path of
  each decorator, \<^verbatim>\<open>app.include_router(tasks.router, prefix="/api")\<close> puts \<^verbatim>\<open>/api\<close>
  before that, and the two routes of main.py follow. The documentation routes that the
  framework adds by itself and the CORS middleware, which only adds headers and answers
  preflight requests, are left out: a request has no headers here.
\<close>

definition router_prefix :: string where
  "router_prefix = ''/tasks''"

definition router_routes :: "(http_method \<times> string \<times> endpoint) list" where
  "router_routes =
     map (\<lambda>(m, p, e). (m, router_prefix @ p, e))
       [(GET, ''/'', get_tasks),
        (POST, ''/'', create_task),
        (GET, ''/{task_id}'', get_task),
        (PUT, ''/{task_id}'', update_task),
        (DELETE, ''/{task_id}'', delete_task)]"

definition include_router ::
  "(http_method \<times> string \<times> endpoint) list \<Rightarrow> string \<Rightarrow> (http_method \<times> string \<times> endpoint) list" where
  "include_router routes prefix = map (\<lambda>(m, p, e). (m, prefix @ p, e)) routes"

definition app_routes :: "(http_method \<times> string \<times> endpoint) list" where
  "app_routes =
     include_router router_routes ''/api''
       @ [(GET, ''/health'', health_check), (GET, ''/'', root)]"

text \<open>
  Path matching. A route path is compiled to an anchored pattern in which a parameter
  \<^verbatim>\<open>{name}\<close> stands for one or more characters other than \<^verbatim>\<open>/\<close>; so a path matches
  when it has the same segments between its slashes, a parameter taking a non-empty one.
\<close>

fun split_at :: "char \<Rightarrow> string \<Rightarrow> string list" where
  "split_at c [] = [[]]"
| "split_at c (x # xs) =
     (if x = c then [] # split_at c xs
      else (case split_at c xs of w # ws \<Rightarrow> (x # w) # ws | [] \<Rightarrow> [[x]]))"

definition is_param :: "string \<Rightarrow> bool" where
  "is_param seg = (case seg of [] \<Rightarrow> False | c # _ \<Rightarrow> c = CHR ''{'' \<and> last seg = CHR ''}'')"

fun match_segments :: "string list \<Rightarrow> string list \<Rightarrow> string list option" where
  "match_segments [] [] = Some []"
| "match_segments (p # ps) (s # ss) =
     (if is_param p
      then (if s = [] then None else map_option ((#) s) (match_segments ps ss))
      else if p = s then match_segments ps ss else None)"
| "match_segments _ _ = None"

definition match_path :: "string \<Rightarrow> string \<Rightarrow> string list option" where
  "match_path pattern p = match_segments (split_at CHR ''/'' pattern) (split_at CHR ''/'' p)"

text \<open>
  Calling an endpoint: the path parameter \<^verbatim>\<open>task_id: int\<close> and the body are validated
  against the declared types, all errors together, before the route function runs.
  \<^verbatim>\<open>conv\<close> is the validation library's conversion of a path segment to \<^verbatim>\<open>int\<close>.
\<close>

definition path_task_id :: "(string \<Rightarrow> int option) \<Rightarrow> string list \<Rightarrow> verror list + int" where
  "path_task_id conv params =
     (case params of
        [s] \<Rightarrow> (case conv s of Some i \<Rightarrow> Inr i | None \<Rightarrow> Inl [IntParsing ''task_id''])
      | _ \<Rightarrow> Inl [Missing ''task_id''])"

definition errors_in :: "verror list + 'a \<Rightarrow> verror list" where
  "errors_in r = (case r of Inl errs \<Rightarrow> errs | Inr _ \<Rightarrow> [])"

fun call_endpoint ::
  "(string \<Rightarrow> int option) \<Rightarrow> datetime \<Rightarrow> endpoint \<Rightarrow> string list \<Rightarrow> json option \<Rightarrow> Session
     \<Rightarrow> (exc + json) \<times> Session" where
  "call_endpoint conv now get_tasks params b db = router_get_tasks db"
| "call_endpoint conv now create_task params b db =
     (case TaskBase_validate b of
        Inl errs \<Rightarrow> (Inl (RequestValidationError errs), db)
      | Inr task \<Rightarrow> router_create_task now task db)"
| "call_endpoint conv now get_task params b db =
     (case path_task_id conv params of
        Inl errs \<Rightarrow> (Inl (RequestValidationError errs), db)
      | Inr task_id \<Rightarrow> router_get_task task_id db)"
| "call_endpoint conv now update_task params b db =
     (case (path_task_id conv params, TaskBase_validate b) of
        (Inr task_id, Inr task) \<Rightarrow> router_update_task now task_id task db
      | (r1, r2) \<Rightarrow> (Inl (RequestValidationError (errors_in r1 @ errors_in r2)), db))"
| "call_endpoint conv now delete_task params b db =
     (case path_task_id conv params of
        Inl errs \<Rightarrow> (Inl (RequestValidationError errs), db)
      | Inr task_id \<Rightarrow> router_delete_task task_id db)"
| "call_endpoint conv now health_check params b db = (Inr (JObj [(''status'', JStr ''UP'')]), db)"
| "call_endpoint conv now root params b db =
     (Inr (JObj [(''message'', JStr ''Task Management API''), (''docs'', JStr ''/docs'')]), db)"

text \<open>
  The framework's exception handlers: a returned value is sent with status 200, an
  \<^verbatim>\<open>HTTPException\<close> with its status and its detail, a request validation error as 422,
  a response validation error is not handled and ends as 500.
\<close>

fun respond :: "exc + json \<Rightarrow> response" where
  "respond (Inr content) = JSONResponse 200 content"
| "respond (Inl (HTTPException code detail)) = JSONResponse code (JObj [(''detail'', JStr detail)])"
| "respond (Inl (RequestValidationError errs)) = UnprocessableEntity errs"
| "respond (Inl (ResponseValidationError errs)) = InternalServerError"

text \<open>
  Dispatch, as the framework's router does it: the routes are tried in order and the first
  whose path and method both match handles the request; a path that matches with another
  method only gives 405; otherwise, unless the path is \<^verbatim>\<open>/\<close>, a route that matches
  the path with a slash added at its end, or with all its trailing slashes stripped when it
  ends in one, gives a redirect there; otherwise 404.
\<close>

fun full_match ::
  "http_method \<Rightarrow> string \<Rightarrow> (http_method \<times> string \<times> endpoint) list
     \<Rightarrow> (endpoint \<times> string list) option" where
  "full_match m p [] = None"
| "full_match m p ((m', pattern, e) # routes) =
     (case match_path pattern p of
        Some params \<Rightarrow> if m' = m then Some (e, params) else full_match m p routes
      | None \<Rightarrow> full_match m p routes)"

fun path_match :: "string \<Rightarrow> (http_method \<times> string \<times> endpoint) list \<Rightarrow> bool" where
  "path_match p [] = False"
| "path_match p ((m', pattern, e) # routes) =
     (case match_path pattern p of Some params \<Rightarrow> True | None \<Rightarrow> path_match p routes)"

text \<open>
  The path the router tries for a redirect: \<^verbatim>\<open>path.rstrip("/")\<close> when the path ends
  in a slash, the path with a slash appended otherwise.
\<close>

definition rstrip :: "char \<Rightarrow> string \<Rightarrow> string" where
  "rstrip c p = rev (dropWhile (\<lambda>x. x = c) (rev p))"

definition toggle_slash :: "string \<Rightarrow> string" where
  "toggle_slash p = (if p \<noteq> [] \<and> last p = CHR ''/'' then rstrip CHR ''/'' p else p @ ''/'')"

definition app ::
  "(string \<Rightarrow> int option) \<Rightarrow> datetime \<Rightarrow> request \<Rightarrow> Session \<Rightarrow> response \<times> Session" where
  "app conv now req db =
     (case full_match (verb req) (path req) app_routes of
        Some (e, params) \<Rightarrow>
          (let (r, db') = call_endpoint conv now e params (body req) db
           in (respond r, db'))
      | None \<Rightarrow>
          if path_match (path req) app_routes
          then (respond (Inl (HTTPException 405 ''Method Not Allowed'')), db)
          else if path req \<noteq> ''/'' \<and> path_match (toggle_slash (path req)) app_routes
          then (RedirectResponse (toggle_slash (path req)), db)
          else (respond (Inl (HTTPException 404 ''Not Found'')), db))"

section \<open>Well-formed stores and reachable states\<close>

text \<open>
  A row as the service writes it: a string title, a description that is a string or
  \<^verbatim>\<open>None\<close>, a status that is a member of the enum, an id and a creation time.
\<close>

definition is_str :: "pyval \<Rightarrow> bool" where
  "is_str v = (case v of PyStr _ \<Rightarrow> True | _ \<Rightarrow> False)"

definition is_enum :: "pyval \<Rightarrow> bool" where
  "is_enum v = (case v of PyEnum _ \<Rightarrow> True | _ \<Rightarrow> False)"

definition row_ok :: "Task \<Rightarrow> bool" where
  "row_ok t =
     (is_str (Task.title t) \<and> (Task.description t = PyNone \<or> is_str (Task.description t))
      \<and> is_enum (Task.status t) \<and> Task.id t \<noteq> None \<and> Task.created_at t \<noteq> None)"

text \<open>
  A well-formed store: every row is as above, the primary key is unique, and every id in
  use is below the next one the store assigns.
\<close>

definition store_ok :: "Session \<Rightarrow> bool" where
  "store_ok db =
     (list_all row_ok (tasks db) \<and> distinct (map Task.id (tasks db))
      \<and> list_all (\<lambda>t. case Task.id t of None \<Rightarrow> False | Some i \<Rightarrow> i < autoincrement db)
           (tasks db))"

text \<open>
  The states of the store that requests can produce: the empty table that
  \<^verbatim>\<open>create_all\<close> of main.py makes, and the state after any request to the
  application in such a state.
\<close>

inductive reachable :: "Session \<Rightarrow> bool" where
  start: "reachable \<lparr>tasks = [], autoincrement = 1\<rparr>"
| step: "reachable db \<Longrightarrow> reachable (snd (app conv now req db))"

text \<open>A member of a JSON object in a response, such as the \<^verbatim>\<open>status\<close> of a task view.\<close>

definition json_get :: "json \<Rightarrow> string \<Rightarrow> json option" where
  "json_get content key =
     (case content of JObj members \<Rightarrow> get_item members key | _ \<Rightarrow> None)"

section \<open>Lookup, update and removal of rows\<close>

lemma fold_setattr_dict:
  "fold (\<lambda>(key, v) t. setattr t key v) (TaskBase_dict ex m) t =
     t\<lparr>Task.title := (if \<not> ex \<or> ''title'' \<in> fields_set m then PyStr (TaskBase.title m) else Task.title t),
       Task.description := (if \<not> ex \<or> ''description'' \<in> fields_set m
          then (case TaskBase.description m of None \<Rightarrow> PyNone | Some s \<Rightarrow> PyStr s) else Task.description t),
       Task.status := (if \<not> ex \<or> ''status'' \<in> fields_set m then PyEnum (TaskBase.status m) else Task.status t)\<rparr>"
  by (simp add: TaskBase_dict_def setattr_def)

lemma find_by_id_None_iff:
  "find_by_id db i = None \<longleftrightarrow> Some i \<notin> Task.id ` set (tasks db)"
  by (auto simp: find_by_id_def find_None_iff image_iff)

lemma find_by_id_SomeD:
  "find_by_id db i = Some t \<Longrightarrow> Task.id t = Some i \<and> t \<in> set (tasks db)"
  by (auto simp: find_by_id_def find_Some_iff)

lemma find_id_append:
  "find P (xs @ ys) = (case find P xs of None \<Rightarrow> find P ys | Some x \<Rightarrow> Some x)"
  by (induction xs) auto

lemma find_id_replace:
  "Task.id t' = k \<Longrightarrow>
   find (\<lambda>t. Task.id t = Some j) (map (\<lambda>r. if Task.id r = k then t' else r) xs) =
     (if k = Some j then map_option (\<lambda>_. t') (find (\<lambda>t. Task.id t = Some j) xs)
      else find (\<lambda>t. Task.id t = Some j) xs)"
  by (induction xs) auto

lemma find_id_filter:
  "find (\<lambda>t. Task.id t = Some j) (filter (\<lambda>r. Task.id r \<noteq> k) xs) =
     (if k = Some j then None else find (\<lambda>t. Task.id t = Some j) xs)"
  by (induction xs) auto

lemma ids_replace:
  "Task.id t' = k \<Longrightarrow> map Task.id (map (\<lambda>r. if Task.id r = k then t' else r) xs) = map Task.id xs"
  by (induction xs) auto

lemma filter_other_replace:
  "Task.id t' = k \<Longrightarrow>
   filter (\<lambda>r. Task.id r \<noteq> k) (map (\<lambda>r. if Task.id r = k then t' else r) xs) =
   filter (\<lambda>r. Task.id r \<noteq> k) xs"
  by (induction xs) auto

lemma filter_id_remove1:
  "distinct (map Task.id xs) \<Longrightarrow> t \<in> set xs \<Longrightarrow>
   filter (\<lambda>r. Task.id r \<noteq> Task.id t) xs = remove1 t xs"
proof (induction xs)
  case Nil
  then show ?case by simp
next
  case (Cons x xs)
  show ?case
  proof (cases "x = t")
    case True
    with Cons.prems have "\<forall>r \<in> set xs. Task.id r \<noteq> Task.id t" by (auto simp: image_iff)
    then have "filter (\<lambda>r. Task.id r \<noteq> Task.id t) xs = xs" by (simp add: filter_id_conv)
    with True show ?thesis by simp
  next
    case False
    with Cons.prems have "t \<in> set xs" "Task.id x \<noteq> Task.id t" "distinct (map Task.id xs)" by auto
    with Cons.IH False show ?thesis by simp
  qed
qed

section \<open>The service methods, equation by equation\<close>

lemma create_task_eq:
  "TaskService_create_task now db task =
     (let t = \<lparr>Task.id = Some (autoincrement db), Task.title = PyStr (TaskBase.title task),
               Task.description = (case TaskBase.description task of None \<Rightarrow> PyNone | Some s \<Rightarrow> PyStr s),
               Task.status = PyEnum (TaskBase.status task),
               Task.created_at = Some now, Task.updated_at = None\<rparr>
      in (t, db\<lparr>tasks := tasks db @ [t], autoincrement := autoincrement db + 1\<rparr>))"
  by (simp add: TaskService_create_task_def Task_init_def insert_task_def fold_setattr_dict Let_def)

lemma update_task_None:
  "find_by_id db i = None \<Longrightarrow> TaskService_update_task now db i task = (None, db)"
  by (simp add: TaskService_update_task_def)

lemma update_task_Some:
  assumes "find_by_id db i = Some old"
  shows "\<exists>new db'. TaskService_update_task now db i task = (Some new, db')
     \<and> find_by_id db' i = Some new
     \<and> Task.id new = Some i \<and> Task.created_at new = Task.created_at old
     \<and> Task.title new = (if ''title'' \<in> fields_set task then PyStr (TaskBase.title task) else Task.title old)
     \<and> Task.description new = (if ''description'' \<in> fields_set task
          then (case TaskBase.description task of None \<Rightarrow> PyNone | Some s \<Rightarrow> PyStr s) else Task.description old)
     \<and> Task.status new = (if ''status'' \<in> fields_set task then PyEnum (TaskBase.status task) else Task.status old)
     \<and> autoincrement db' = autoincrement db
     \<and> map Task.id (tasks db') = map Task.id (tasks db)
     \<and> (\<forall>j. j \<noteq> i \<longrightarrow> find_by_id db' j = find_by_id db j)
     \<and> filter (\<lambda>r. Task.id r \<noteq> Some i) (tasks db') = filter (\<lambda>r. Task.id r \<noteq> Some i) (tasks db)
     \<and> set (tasks db') \<subseteq> insert new (set (tasks db))"
proof -
  from assms have idold: "Task.id old = Some i" and mem: "old \<in> set (tasks db)"
    by (auto dest: find_by_id_SomeD)
  define new0 where "new0 = fold (\<lambda>(key, v) t. setattr t key v) (TaskBase_dict True task) old"
  have id0: "Task.id new0 = Some i" and c0: "Task.created_at new0 = Task.created_at old"
    using idold by (simp_all add: new0_def fold_setattr_dict)
  have f0: "Task.title new0 = (if ''title'' \<in> fields_set task then PyStr (TaskBase.title task) else Task.title old)"
     "Task.description new0 = (if ''description'' \<in> fields_set task
          then (case TaskBase.description task of None \<Rightarrow> PyNone | Some s \<Rightarrow> PyStr s) else Task.description old)"
     "Task.status new0 = (if ''status'' \<in> fields_set task then PyEnum (TaskBase.status task) else Task.status old)"
    by (simp_all add: new0_def fold_setattr_dict)
  show ?thesis
  proof (cases "new0 = old")
    case True
    then have "TaskService_update_task now db i task = (Some old, db)"
      using assms by (simp add: TaskService_update_task_def apply_and_commit_def new0_def)
    moreover note assms idold
    moreover have "Task.title old = Task.title new0" "Task.description old = Task.description new0"
      "Task.status old = Task.status new0" using True by simp_all
    ultimately show ?thesis using mem by (auto simp: f0)
  next
    case False
    define new where "new = new0\<lparr>Task.updated_at := Some now\<rparr>"
    define db' where "db' = db\<lparr>tasks := map (\<lambda>r. if Task.id r = Some i then new else r) (tasks db)\<rparr>"
    have idn: "Task.id new = Some i" by (simp add: new_def id0)
    have upd: "TaskService_update_task now db i task = (Some new, db')"
      using assms False
      by (simp add: TaskService_update_task_def apply_and_commit_def new0_def[symmetric] Let_def
            new_def db'_def id0)
    have look: "find_by_id db' j = (if j = i then Some new else find_by_id db j)" for j
      using assms by (simp add: find_by_id_def db'_def find_id_replace[OF idn])
    have "set (tasks db') \<subseteq> insert new (set (tasks db))" by (auto simp: db'_def)
    then show ?thesis
      using upd look idn
      by (simp add: new_def c0 f0 db'_def ids_replace id0 filter_other_replace)
  qed
qed

lemma delete_task_None:
  "find_by_id db i = None \<Longrightarrow> TaskService_delete_task db i = (False, db)"
  by (simp add: TaskService_delete_task_def)

lemma delete_task_Some:
  "find_by_id db i = Some t \<Longrightarrow>
   TaskService_delete_task db i = (True, db\<lparr>tasks := filter (\<lambda>r. Task.id r \<noteq> Some i) (tasks db)\<rparr>)"
  by (auto simp: TaskService_delete_task_def delete_row_def dest: find_by_id_SomeD)

lemma snd_router_update_task:
  "snd (router_update_task now i task db) = snd (TaskService_update_task now db i task)"
  by (simp add: router_update_task_def split_beta split: option.splits)

section \<open>Validation and serialisation\<close>

lemma validate_Inr:
  assumes "TaskBase_validate (Some (JObj members)) = Inr task"
  shows "get_item members ''title'' = Some (JStr (TaskBase.title task))"
    and "''title'' \<in> fields_set task"
    and "''description'' \<in> fields_set task \<longleftrightarrow> get_item members ''description'' \<noteq> None"
    and "''status'' \<in> fields_set task \<longleftrightarrow> get_item members ''status'' \<noteq> None"
    and "get_item members ''description'' = None \<Longrightarrow> TaskBase.description task = None"
    and "get_item members ''description'' = Some v \<Longrightarrow> validate_optional_str ''description'' v = Inr (TaskBase.description task)"
    and "get_item members ''status'' = None \<Longrightarrow> TaskBase.status task = PENDING"
    and "get_item members ''status'' = Some v \<Longrightarrow> validate_TaskStatus ''status'' v = Inr (TaskBase.status task)"
  using assms
  by (auto simp: TaskBase_validate_def Let_def split: option.splits sum.splits elim: validate_str.elims)

lemma validate_title_required:
  assumes "\<nexists>members s. b = Some (JObj members) \<and> get_item members ''title'' = Some (JStr s)"
  shows "\<exists>errs. errs \<noteq> [] \<and> TaskBase_validate b = Inl errs"
proof (cases "TaskBase_validate b")
  case (Inl errs)
  then have "errs \<noteq> []"
    by (auto simp: TaskBase_validate_def Let_def errors_of_def
          split: option.splits json.splits sum.splits)
  with Inl show ?thesis by simp
next
  case (Inr task)
  then obtain members where "b = Some (JObj members)"
    by (auto simp: TaskBase_validate_def split: option.splits json.splits)
  with Inr assms validate_Inr(1) show ?thesis by blast
qed

lemma TaskStatus_of_value_Inr:
  "TaskStatus_of_value loc s = Inr st \<Longrightarrow> TaskStatus_value st = s"
  by (auto simp: TaskStatus_of_value_def split: if_splits)

lemma TaskStatus_of_value_value:
  "TaskStatus_of_value loc (TaskStatus_value st) = Inr st"
  by (cases st) (simp_all add: TaskStatus_of_value_def)

lemma json_get_jsonable:
  "json_get (jsonable r) ''status'' = Some (JStr (TaskStatus_value (TaskBase.status r)))"
  "json_get (jsonable r) ''title'' = Some (JStr (TaskBase.title r))"
  "json_get (jsonable r) ''description'' =
     Some (case TaskBase.description r of None \<Rightarrow> JNull | Some s \<Rightarrow> JStr s)"
  "json_get (jsonable r) ''id'' = Some (JInt (TaskResponse.id r))"
  by (simp_all add: json_get_def jsonable_def get_item_def)

lemma from_attributes_row_ok:
  assumes "row_ok t"
  shows "\<exists>r. TaskResponse_from_attributes t = Inr r \<and> Task.status t = PyEnum (TaskBase.status r)
           \<and> Task.title t = PyStr (TaskBase.title r)
           \<and> Task.description t = (case TaskBase.description r of None \<Rightarrow> PyNone | Some s \<Rightarrow> PyStr s)
           \<and> Task.id t = Some (TaskResponse.id r)"
  using assms
  by (auto simp: row_ok_def is_str_def is_enum_def TaskResponse_from_attributes_def Let_def
        attr_str_def attr_optional_str_def attr_TaskStatus_def split: pyval.splits)

lemma serialize_task_row_ok:
  assumes "row_ok t"
  shows "\<exists>c. serialize_task t = Inr c
           \<and> (\<forall>s. Task.status t = PyEnum s \<longrightarrow> json_get c ''status'' = Some (JStr (TaskStatus_value s)))"
proof -
  from from_attributes_row_ok[OF assms] obtain r where
    r: "TaskResponse_from_attributes t = Inr r" "Task.status t = PyEnum (TaskBase.status r)"
    by blast
  then show ?thesis
    by (simp add: serialize_task_def json_get_jsonable)
qed

lemma serialize_task_fields:
  assumes "row_ok t"
  shows "\<exists>r. serialize_task t = Inr (jsonable r) \<and> Task.status t = PyEnum (TaskBase.status r)
           \<and> Task.title t = PyStr (TaskBase.title r)
           \<and> Task.description t = (case TaskBase.description r of None \<Rightarrow> PyNone | Some s \<Rightarrow> PyStr s)
           \<and> Task.id t = Some (TaskResponse.id r)"
  using from_attributes_row_ok[OF assms] by (auto simp: serialize_task_def)

lemma serialize_task_status:
  assumes "serialize_task t = Inr c"
  shows "\<exists>s. json_get c ''status'' = Some (JStr (TaskStatus_value s))"
  using assms
  by (auto simp: serialize_task_def json_get_jsonable split: sum.splits)

lemma serialize_tasks_status:
  assumes "serialize_tasks ts = Inr c"
  shows "\<exists>cs. c = JArr cs \<and> (\<forall>x \<in> set cs. \<exists>s. json_get x ''status'' = Some (JStr (TaskStatus_value s)))"
  using assms
  by (auto simp: serialize_tasks_def Let_def json_get_jsonable split: if_splits sum.splits)
    blast+

lemma serialize_tasks_row_ok:
  assumes "list_all row_ok ts"
  shows "\<exists>cs. serialize_tasks ts = Inr (JArr cs) \<and> length cs = length ts"
proof -
  have "\<forall>t \<in> set ts. \<exists>r. TaskResponse_from_attributes t = Inr r"
    using assms from_attributes_row_ok by (auto simp: list_all_iff)
  then have "concat (map (\<lambda>r. case r of Inl e \<Rightarrow> e | Inr _ \<Rightarrow> []) (map TaskResponse_from_attributes ts)) = []
       \<and> length (concat (map (\<lambda>r. case r of Inl _ \<Rightarrow> [] | Inr v \<Rightarrow> [jsonable v])
             (map TaskResponse_from_attributes ts))) = length ts"
    by (induction ts) auto
  then show ?thesis by (simp add: serialize_tasks_def Let_def)
qed

section \<open>Well-formedness is preserved\<close>

lemma store_ok_create:
  assumes "store_ok db"
  shows "store_ok (snd (TaskService_create_task now db task))"
proof -
  have "\<forall>t \<in> set (tasks db). Task.id t \<noteq> Some (autoincrement db)"
    using assms by (auto simp: store_ok_def list_all_iff split: option.splits)
  then have "Some (autoincrement db) \<notin> Task.id ` set (tasks db)"
    by (auto simp: image_iff)
  then show ?thesis
    using assms
    by (auto simp: create_task_eq Let_def store_ok_def row_ok_def is_str_def is_enum_def
          list_all_iff split: option.splits)
qed

lemma store_ok_update:
  assumes "store_ok db"
  shows "store_ok (snd (TaskService_update_task now db i task))"
proof (cases "find_by_id db i")
  case None
  then show ?thesis using assms by (simp add: update_task_None)
next
  case (Some old)
  from update_task_Some[OF Some, of now task] obtain new db' where
    u: "TaskService_update_task now db i task = (Some new, db')"
       "Task.id new = Some i" "Task.created_at new = Task.created_at old"
       "Task.title new = (if ''title'' \<in> fields_set task then PyStr (TaskBase.title task) else Task.title old)"
       "Task.description new = (if ''description'' \<in> fields_set task
          then (case TaskBase.description task of None \<Rightarrow> PyNone | Some s \<Rightarrow> PyStr s) else Task.description old)"
       "Task.status new = (if ''status'' \<in> fields_set task then PyEnum (TaskBase.status task) else Task.status old)"
       "autoincrement db' = autoincrement db"
       "map Task.id (tasks db') = map Task.id (tasks db)"
       "set (tasks db') \<subseteq> insert new (set (tasks db))"
    by blast
  from Some assms have "row_ok old"
    by (auto simp: store_ok_def list_all_iff dest: find_by_id_SomeD)
  then have "row_ok new"
    using u(2-6) by (auto simp: row_ok_def is_str_def is_enum_def split: option.splits)
  then have rows: "list_all row_ok (tasks db')"
    using u(9) assms by (auto simp: store_ok_def list_all_iff)
  have bound: "list_all (\<lambda>t. case Task.id t of None \<Rightarrow> False | Some i \<Rightarrow> i < a) xs
      = list_all (\<lambda>x. case x of None \<Rightarrow> False | Some i \<Rightarrow> i < a) (map Task.id xs)" for a xs
    by (simp add: list_all_iff)
  from assms have "list_all (\<lambda>x. case x of None \<Rightarrow> False | Some i \<Rightarrow> i < autoincrement db)
      (map Task.id (tasks db))"
    by (simp add: store_ok_def bound)
  then have "list_all (\<lambda>t. case Task.id t of None \<Rightarrow> False | Some i \<Rightarrow> i < autoincrement db')
      (tasks db')"
    unfolding bound u(7) u(8) .
  moreover from assms have "distinct (map Task.id (tasks db'))"
    by (simp add: store_ok_def u(8))
  ultimately show ?thesis
    using rows by (simp add: store_ok_def u(1))
qed

lemma store_ok_delete:
  assumes "store_ok db"
  shows "store_ok (snd (TaskService_delete_task db i))"
proof (cases "find_by_id db i")
  case None
  then show ?thesis using assms by (simp add: delete_task_None)
next
  case (Some t)
  then show ?thesis
    using assms
    by (auto simp: delete_task_Some store_ok_def list_all_iff distinct_map_filter
          split: option.splits)
qed

lemma store_ok_call_endpoint:
  assumes "store_ok db"
  shows "store_ok (snd (call_endpoint conv now e params b db))"
proof (cases e)
  case get_tasks
  then show ?thesis using assms
    by (simp add: router_get_tasks_def TaskService_get_all_tasks_def)
next
  case create_task
  show ?thesis
  proof (cases "TaskBase_validate b")
    case (Inl errs)
    with create_task assms show ?thesis by simp
  next
    case (Inr task)
    have "store_ok (snd (TaskService_create_task now db task))"
      by (rule store_ok_create[OF assms])
    with create_task Inr show ?thesis
      by (simp add: router_create_task_def split_beta)
  qed
next
  case get_task
  then show ?thesis using assms
    by (auto simp: router_get_task_def TaskService_get_task_def split: sum.splits option.splits)
next
  case update_task
  have "store_ok (snd (router_update_task now i task db))" for i task
    using store_ok_update[OF assms, of now i task]
    by (auto simp: router_update_task_def split: prod.splits option.splits)
  with update_task assms show ?thesis
    by (simp split: sum.splits)
next
  case delete_task
  have "store_ok (snd (router_delete_task i db))" for i
    using store_ok_delete[OF assms, of i]
    by (auto simp: router_delete_task_def split: prod.splits)
  with delete_task assms show ?thesis
    by (simp split: sum.splits)
next
  case health_check
  then show ?thesis using assms by simp
next
  case root
  then show ?thesis using assms by simp
qed

lemma store_ok_app:
  assumes "store_ok db"
  shows "store_ok (snd (app conv now req db))"
proof (cases "full_match (verb req) (path req) app_routes")
  case None
  with assms show ?thesis by (simp add: app_def)
next
  case (Some m)
  obtain e params where m: "m = (e, params)" by (cases m)
  have "store_ok (snd (call_endpoint conv now e params (body req) db))"
    by (rule store_ok_call_endpoint[OF assms])
  with Some m show ?thesis by (simp add: app_def split_beta)
qed

lemma reachable_store_ok:
  "reachable db \<Longrightarrow> store_ok db"
proof (induction rule: reachable.induct)
  case start
  show ?case by (simp add: store_ok_def)
next
  case (step db conv now req)
  then show ?case by (simp add: store_ok_app)
qed

section \<open>Routing and endpoint calls\<close>

lemma split_at_no_sep: "c \<notin> set s \<Longrightarrow> split_at c s = [s]"
  by (induction s) auto

lemma full_match_item:
  assumes "seg \<noteq> []" and "CHR ''/'' \<notin> set seg"
  shows "full_match m (''/api/tasks/'' @ seg) app_routes =
           (if m = GET then Some (get_task, [seg])
            else if m = PUT then Some (update_task, [seg])
            else if m = DELETE then Some (delete_task, [seg])
            else None)"
  using assms
  by (simp add: app_routes_def include_router_def router_routes_def router_prefix_def
        match_path_def split_at_no_sep is_param_def)

lemma full_match_collection:
  "full_match m ''/api/tasks/'' app_routes =
     (if m = GET then Some (get_tasks, []) else if m = POST then Some (create_task, []) else None)"
  by (simp add: app_routes_def include_router_def router_routes_def router_prefix_def
        match_path_def is_param_def)

lemma call_create_valid:
  assumes "TaskBase_validate b = Inr task"
  shows "\<exists>r. call_endpoint conv now create_task params b db
       = (Inr (jsonable r), snd (TaskService_create_task now db task))
     \<and> TaskBase.title r = TaskBase.title task \<and> TaskBase.description r = TaskBase.description task
     \<and> TaskBase.status r = TaskBase.status task \<and> TaskResponse.id r = autoincrement db"
proof -
  let ?t = "fst (TaskService_create_task now db task)"
  have "row_ok ?t"
    by (simp add: create_task_eq Let_def row_ok_def is_str_def is_enum_def split: option.splits)
  from serialize_task_fields[OF this] obtain r where
    r: "serialize_task ?t = Inr (jsonable r)" "Task.status ?t = PyEnum (TaskBase.status r)"
       "Task.title ?t = PyStr (TaskBase.title r)"
       "Task.description ?t = (case TaskBase.description r of None \<Rightarrow> PyNone | Some s \<Rightarrow> PyStr s)"
       "Task.id ?t = Some (TaskResponse.id r)"
    by blast
  have "call_endpoint conv now create_task params b db
       = (Inr (jsonable r), snd (TaskService_create_task now db task))"
    using assms r(1) by (simp add: router_create_task_def split_beta)
  moreover have "TaskBase.title r = TaskBase.title task" "TaskBase.status r = TaskBase.status task"
    "TaskResponse.id r = autoincrement db"
    using r(2,3,5) by (simp_all add: create_task_eq Let_def)
  moreover have "TaskBase.description r = TaskBase.description task"
    using r(4) by (auto simp: create_task_eq Let_def split: option.splits)
  ultimately show ?thesis by blast
qed

lemma call_get_present:
  assumes "store_ok db" and "find_by_id db i = Some t" and "conv seg = Some i"
  shows "\<exists>r. call_endpoint conv now get_task [seg] b db = (Inr (jsonable r), db)
     \<and> Task.title t = PyStr (TaskBase.title r)
     \<and> Task.description t = (case TaskBase.description r of None \<Rightarrow> PyNone | Some s \<Rightarrow> PyStr s)
     \<and> Task.status t = PyEnum (TaskBase.status r)"
proof -
  from assms(1,2) have "row_ok t"
    by (auto simp: store_ok_def list_all_iff dest: find_by_id_SomeD)
  from serialize_task_fields[OF this] assms(2,3) show ?thesis
    by (auto simp: path_task_id_def router_get_task_def TaskService_get_task_def)
qed

lemma call_update_eq:
  assumes "conv seg = Some i" and "TaskBase_validate b = Inr task"
  shows "call_endpoint conv now update_task [seg] b db = router_update_task now i task db"
  using assms by (simp add: path_task_id_def)

lemma call_update_invalid:
  assumes "TaskBase_validate b = Inl errs"
  shows "\<exists>errs'. call_endpoint conv now update_task params b db = (Inl (RequestValidationError errs'), db)"
  using assms by (simp split: sum.splits)

lemma update_serializes:
  assumes "store_ok db" and "TaskService_update_task now db i task = (Some new, db')"
  shows "\<exists>c. serialize_task new = Inr c \<and> router_update_task now i task db = (Inr c, db')"
proof -
  have "store_ok db'"
    using store_ok_update[OF assms(1), of now i task] assms(2) by simp
  moreover have "find_by_id db i \<noteq> None"
    using assms(2) by (cases "find_by_id db i") (auto simp: update_task_None)
  then obtain old where "find_by_id db i = Some old" by blast
  from update_task_Some[OF this, of now task] assms(2) have "find_by_id db' i = Some new"
    by auto
  ultimately have "row_ok new"
    by (auto simp: store_ok_def list_all_iff dest: find_by_id_SomeD)
  then obtain c where "serialize_task new = Inr c"
    using serialize_task_row_ok by blast
  with assms(2) show ?thesis by (simp add: router_update_task_def)
qed

lemma call_update_present:
  assumes "store_ok db" and "find_by_id db i = Some old" and "conv seg = Some i"
    and "TaskBase_validate b = Inr task"
  shows "\<exists>c db'. call_endpoint conv now update_task [seg] b db = (Inr c, db')"
proof -
  from update_task_Some[OF assms(2), of now task] obtain new db' where
    u: "TaskService_update_task now db i task = (Some new, db')" by blast
  from update_serializes[OF assms(1) u] show ?thesis
    by (auto simp only: call_update_eq[where conv = conv and seg = seg, OF assms(3,4)])
qed

lemma call_update_rejected:
  assumes "conv seg = Some i" and "TaskBase_validate b = Inl errs"
  shows "call_endpoint conv now update_task [seg] b db = (Inl (RequestValidationError errs), db)"
  using assms by (simp add: path_task_id_def errors_in_def)

lemma app_item:
  assumes "seg \<noteq> []" and "CHR ''/'' \<notin> set seg"
  shows "app conv now \<lparr>verb = GET, path = ''/api/tasks/'' @ seg, body = b\<rparr> db
           = (respond (fst (call_endpoint conv now get_task [seg] b db)),
              snd (call_endpoint conv now get_task [seg] b db))"
    and "app conv now \<lparr>verb = PUT, path = ''/api/tasks/'' @ seg, body = b\<rparr> db
           = (respond (fst (call_endpoint conv now update_task [seg] b db)),
              snd (call_endpoint conv now update_task [seg] b db))"
    and "app conv now \<lparr>verb = DELETE, path = ''/api/tasks/'' @ seg, body = b\<rparr> db
           = (respond (fst (call_endpoint conv now delete_task [seg] b db)),
              snd (call_endpoint conv now delete_task [seg] b db))"
proof -
  have m: "full_match m (CHR ''/'' # CHR ''a'' # CHR ''p'' # CHR ''i'' # CHR ''/'' # CHR ''t''
      # CHR ''a'' # CHR ''s'' # CHR ''k'' # CHR ''s'' # CHR ''/'' # seg) app_routes =
         (if m = GET then Some (get_task, [seg])
          else if m = PUT then Some (update_task, [seg])
          else if m = DELETE then Some (delete_task, [seg])
          else None)" for m
    using full_match_item[OF assms, of m] by simp
  show "app conv now \<lparr>verb = GET, path = ''/api/tasks/'' @ seg, body = b\<rparr> db
           = (respond (fst (call_endpoint conv now get_task [seg] b db)),
              snd (call_endpoint conv now get_task [seg] b db))"
    by (simp add: app_def m split_beta del: call_endpoint.simps)
  show "app conv now \<lparr>verb = PUT, path = ''/api/tasks/'' @ seg, body = b\<rparr> db
           = (respond (fst (call_endpoint conv now update_task [seg] b db)),
              snd (call_endpoint conv now update_task [seg] b db))"
    by (simp add: app_def m split_beta del: call_endpoint.simps)
  show "app conv now \<lparr>verb = DELETE, path = ''/api/tasks/'' @ seg, body = b\<rparr> db
           = (respond (fst (call_endpoint conv now delete_task [seg] b db)),
              snd (call_endpoint conv now delete_task [seg] b db))"
    by (simp add: app_def m split_beta del: call_endpoint.simps)
qed

section \<open>The claims\<close>

text \<open>
  Claim C1, as amended. The update schema is \<^verbatim>\<open>TaskBase\<close>, whose \<^verbatim>\<open>title\<close> is
  required, so a body that supplies only \<^verbatim>\<open>description\<close> does not pass validation:
  it is rejected and nothing is stored. For every task present in a well-formed store
  (every store that requests can reach is one, by \<open>reachable_store_ok\<close>) and
  every body that passes validation, the update succeeds (a PUT on \<^verbatim>\<open>/api/tasks/{id}\<close>
  is answered 200) and returns the view of the stored row; the stored title is the supplied one; a supplied \<^verbatim>\<open>description\<close> (a string or
  null) and a supplied \<^verbatim>\<open>status\<close> overwrite the stored ones; and each of
  \<^verbatim>\<open>description\<close> and \<^verbatim>\<open>status\<close> that the body does not supply keeps its stored
  value, as do \<^verbatim>\<open>id\<close> and \<^verbatim>\<open>created_at\<close>.
\<close>

theorem update_keeps_unsupplied_fields:
  assumes "store_ok db" and "find_by_id db task_id = Some old" and "conv seg = Some task_id"
  shows "(\<forall>task. TaskBase_validate (Some (JObj members)) = Inr task \<longrightarrow>
      (\<exists>c new db'.
         call_endpoint conv now update_task [seg] (Some (JObj members)) db = (Inr c, db')
         \<and> serialize_task new = Inr c
         \<and> find_by_id db' task_id = Some new
         \<and> Task.title new = PyStr (TaskBase.title task)
         \<and> (\<forall>s. get_item members ''title'' = Some (JStr s) \<longrightarrow> Task.title new = PyStr s)
         \<and> (\<forall>s. get_item members ''description'' = Some (JStr s)
                \<longrightarrow> Task.description new = PyStr s)
         \<and> (get_item members ''description'' = Some JNull \<longrightarrow> Task.description new = PyNone)
         \<and> (get_item members ''description'' = None \<longrightarrow> Task.description new = Task.description old)
         \<and> (\<forall>st. get_item members ''status'' = Some (JStr (TaskStatus_value st))
                \<longrightarrow> Task.status new = PyEnum st)
         \<and> (get_item members ''status'' = None \<longrightarrow> Task.status new = Task.status old)
         \<and> Task.id new = Task.id old \<and> Task.created_at new = Task.created_at old
         \<and> (seg \<noteq> [] \<and> CHR ''/'' \<notin> set seg \<longrightarrow>
               app conv now \<lparr>verb = PUT, path = ''/api/tasks/'' @ seg,
                              body = Some (JObj members)\<rparr> db
                 = (JSONResponse 200 c, db'))))
    \<and> (get_item members ''title'' = None \<longrightarrow>
         (\<exists>errs. call_endpoint conv now update_task [seg] (Some (JObj members)) db
            = (Inl (RequestValidationError errs), db)))"
proof (intro conjI allI impI)
  fix task
  assume v: "TaskBase_validate (Some (JObj members)) = Inr task"
  from update_task_Some[OF assms(2), of now task] obtain new db' where
    u: "TaskService_update_task now db task_id task = (Some new, db')"
       "find_by_id db' task_id = Some new"
       "Task.id new = Some task_id" "Task.created_at new = Task.created_at old"
       "Task.title new = (if ''title'' \<in> fields_set task then PyStr (TaskBase.title task) else Task.title old)"
       "Task.description new = (if ''description'' \<in> fields_set task
          then (case TaskBase.description task of None \<Rightarrow> PyNone | Some s \<Rightarrow> PyStr s) else Task.description old)"
       "Task.status new = (if ''status'' \<in> fields_set task then PyEnum (TaskBase.status task) else Task.status old)"
    by blast
  from update_serializes[OF assms(1) u(1)] obtain c where
    c: "serialize_task new = Inr c" "router_update_task now task_id task db = (Inr c, db')"
    by blast
  from c(2) have call: "call_endpoint conv now update_task [seg] (Some (JObj members)) db = (Inr c, db')"
    by (simp only: call_update_eq[where conv = conv and seg = seg, OF assms(3) v])
  have ido: "Task.id old = Some task_id"
    using assms(2) by (simp add: find_by_id_SomeD)
  have t: "get_item members ''title'' = Some (JStr (TaskBase.title task))" "''title'' \<in> fields_set task"
    using validate_Inr(1,2)[OF v] .
  have t1: "Task.title new = PyStr s" if "get_item members ''title'' = Some (JStr s)" for s
    using that t u(5) by simp
  have d0: "Task.description new = Task.description old" if "get_item members ''description'' = None"
    using that validate_Inr(3)[OF v] u(6) by simp
  have d1: "Task.description new = PyNone" if "get_item members ''description'' = Some JNull"
    using validate_Inr(6)[OF v that, symmetric] validate_Inr(3)[OF v] that u(6) by simp
  have d2: "Task.description new = PyStr s" if "get_item members ''description'' = Some (JStr s)" for s
    using validate_Inr(6)[OF v that, symmetric] validate_Inr(3)[OF v] that u(6) by simp
  have s0: "Task.status new = Task.status old" if "get_item members ''status'' = None"
    using that validate_Inr(4)[OF v] u(7) by simp
  have s1: "Task.status new = PyEnum st"
    if "get_item members ''status'' = Some (JStr (TaskStatus_value st))" for st
    using validate_Inr(8)[OF v that, symmetric] validate_Inr(4)[OF v] that u(7)
    by (simp add: TaskStatus_of_value_value)
  show "\<exists>c new db'.
         call_endpoint conv now update_task [seg] (Some (JObj members)) db = (Inr c, db')
         \<and> serialize_task new = Inr c
         \<and> find_by_id db' task_id = Some new
         \<and> Task.title new = PyStr (TaskBase.title task)
         \<and> (\<forall>s. get_item members ''title'' = Some (JStr s) \<longrightarrow> Task.title new = PyStr s)
         \<and> (\<forall>s. get_item members ''description'' = Some (JStr s)
                \<longrightarrow> Task.description new = PyStr s)
         \<and> (get_item members ''description'' = Some JNull \<longrightarrow> Task.description new = PyNone)
         \<and> (get_item members ''description'' = None \<longrightarrow> Task.description new = Task.description old)
         \<and> (\<forall>st. get_item members ''status'' = Some (JStr (TaskStatus_value st))
                \<longrightarrow> Task.status new = PyEnum st)
         \<and> (get_item members ''status'' = None \<longrightarrow> Task.status new = Task.status old)
         \<and> Task.id new = Task.id old \<and> Task.created_at new = Task.created_at old
         \<and> (seg \<noteq> [] \<and> CHR ''/'' \<notin> set seg \<longrightarrow>
               app conv now \<lparr>verb = PUT, path = ''/api/tasks/'' @ seg,
                              body = Some (JObj members)\<rparr> db
                 = (JSONResponse 200 c, db'))"
  proof (intro exI[of _ c] exI[of _ new] exI[of _ db'] conjI allI impI)
    show "Task.id new = Task.id old" using u(3) ido by simp
    show "app conv now \<lparr>verb = PUT, path = ''/api/tasks/'' @ seg,
                              body = Some (JObj members)\<rparr> db
                 = (JSONResponse 200 c, db')"
      if "seg \<noteq> [] \<and> CHR ''/'' \<notin> set seg"
      unfolding app_item(2)[OF that[THEN conjunct1] that[THEN conjunct2]] call by simp
  qed (use call c(1) u(2,4) t t1 d0 d1 d2 s0 s1 u(5) in \<open>simp_all del: call_endpoint.simps\<close>)
next
  assume "get_item members ''title'' = None"
  then have "\<nexists>members' s. Some (JObj members) = Some (JObj members')
      \<and> get_item members' ''title'' = Some (JStr s)"
    by auto
  from validate_title_required[OF this] obtain errs where
    "TaskBase_validate (Some (JObj members)) = Inl errs" by blast
  from call_update_invalid[OF this]
  show "\<exists>errs. call_endpoint conv now update_task [seg] (Some (JObj members)) db
            = (Inl (RequestValidationError errs), db)" .
qed

text \<open>
  The theorem at a store with one completed task: a body with \<^verbatim>\<open>title\<close> and
  \<^verbatim>\<open>description\<close> overwrites both and leaves \<^verbatim>\<open>status\<close> completed.
\<close>

theorem update_keeps_unsupplied_fields_witness:
  "store_ok \<lparr>tasks = [\<lparr>Task.id = Some 1, Task.title = PyStr ''a'', Task.description = PyNone,
        Task.status = PyEnum COMPLETED, Task.created_at = Some ''t0'', Task.updated_at = None\<rparr>],
      autoincrement = 2\<rparr>
   \<and> TaskBase_validate (Some (JObj [(''title'', JStr ''b''), (''description'', JStr ''new'')]))
       = Inr \<lparr>TaskBase.title = ''b'', TaskBase.description = Some ''new'',
              TaskBase.status = PENDING, fields_set = {''title'', ''description''}\<rparr>
   \<and> (\<exists>c new db'.
      call_endpoint (\<lambda>s. if s = ''1'' then Some 1 else None) ''t1'' update_task [''1'']
        (Some (JObj [(''title'', JStr ''b''), (''description'', JStr ''new'')]))
        \<lparr>tasks = [\<lparr>Task.id = Some 1, Task.title = PyStr ''a'', Task.description = PyNone,
            Task.status = PyEnum COMPLETED, Task.created_at = Some ''t0'', Task.updated_at = None\<rparr>],
          autoincrement = 2\<rparr> = (Inr c, db')
      \<and> find_by_id db' 1 = Some new
      \<and> Task.title new = PyStr ''b'' \<and> Task.description new = PyStr ''new''
      \<and> Task.status new = PyEnum COMPLETED)"
proof -
  let ?old = "\<lparr>Task.id = Some 1, Task.title = PyStr ''a'', Task.description = PyNone,
        Task.status = PyEnum COMPLETED, Task.created_at = Some ''t0'', Task.updated_at = None\<rparr>"
  let ?db = "\<lparr>tasks = [?old], autoincrement = 2\<rparr>"
  let ?members = "[(''title'', JStr ''b''), (''description'', JStr ''new'')]"
  let ?task = "\<lparr>TaskBase.title = ''b'', TaskBase.description = Some ''new'', TaskBase.status = PENDING,
                 fields_set = {''title'', ''description''}\<rparr>"
  let ?conv = "\<lambda>s. if s = ''1'' then Some (1::int) else None"
  have ok: "store_ok ?db"
    by (simp add: store_ok_def row_ok_def is_str_def is_enum_def)
  have f: "find_by_id ?db 1 = Some ?old" by (simp add: find_by_id_def)
  have c: "?conv ''1'' = Some 1" by simp
  have v: "TaskBase_validate (Some (JObj ?members)) = Inr ?task"
    by (simp add: TaskBase_validate_def get_item_def insert_commute)
  have g: "get_item ?members ''status'' = None"
    "get_item ?members ''description'' = Some (JStr ''new'')"
    by (simp_all add: get_item_def)
  note th = update_keeps_unsupplied_fields[where conv = ?conv and seg = "''1''" and now = "''t1''"
      and members = ?members, OF ok f c, THEN conjunct1, rule_format, OF v]
  from th show ?thesis
  proof (elim exE conjE, goal_cases)
    case (1 c' new db')
    have "Task.title new = PyStr ''b''" using 1(4) by simp
    moreover have "Task.description new = PyStr ''new''" using 1(6)[rule_format, OF g(2)] .
    moreover have "Task.status new = PyEnum COMPLETED" using 1(10) g(1) by simp
    ultimately have "\<exists>c new db'.
        call_endpoint ?conv ''t1'' update_task [''1''] (Some (JObj ?members)) ?db = (Inr c, db')
        \<and> find_by_id db' 1 = Some new
        \<and> Task.title new = PyStr ''b'' \<and> Task.description new = PyStr ''new''
        \<and> Task.status new = PyEnum COMPLETED"
      using 1(1) 1(3) by blast
    with ok v show ?case by blast
  qed
qed

text \<open>
  Claim C1 as stated fails: with task 1 in the store, a PUT whose body supplies only
  \<^verbatim>\<open>description\<close> is answered 422 for the missing title, and nothing is stored.
\<close>

theorem update_description_only_counterexample:
  "find_by_id \<lparr>tasks = [\<lparr>Task.id = Some 1, Task.title = PyStr ''a'', Task.description = PyNone,
        Task.status = PyEnum COMPLETED, Task.created_at = Some ''t0'', Task.updated_at = None\<rparr>],
      autoincrement = 2\<rparr> 1
     = Some \<lparr>Task.id = Some 1, Task.title = PyStr ''a'', Task.description = PyNone,
        Task.status = PyEnum COMPLETED, Task.created_at = Some ''t0'', Task.updated_at = None\<rparr>
   \<and> app (\<lambda>s. if s = ''1'' then Some 1 else None) ''t1''
       \<lparr>verb = PUT, path = ''/api/tasks/1'', body = Some (JObj [(''description'', JStr ''new'')])\<rparr>
       \<lparr>tasks = [\<lparr>Task.id = Some 1, Task.title = PyStr ''a'', Task.description = PyNone,
            Task.status = PyEnum COMPLETED, Task.created_at = Some ''t0'', Task.updated_at = None\<rparr>],
          autoincrement = 2\<rparr>
     = (UnprocessableEntity [Missing ''title''],
        \<lparr>tasks = [\<lparr>Task.id = Some 1, Task.title = PyStr ''a'', Task.description = PyNone,
            Task.status = PyEnum COMPLETED, Task.created_at = Some ''t0'', Task.updated_at = None\<rparr>],
          autoincrement = 2\<rparr>)"
  by code_simp

text \<open>
  Claim C2, as amended. The schema asks for a \<^verbatim>\<open>str\<close> and sets no minimum length, so an
  empty title is accepted. A create request whose body has no \<^verbatim>\<open>title\<close>, or a
  \<^verbatim>\<open>title\<close> that is not a string (or no JSON object as body at all), fails validation
  with status 422 before the service is called, and the store is unchanged.
\<close>

theorem create_rejects_missing_or_ill_typed_title:
  assumes "\<nexists>members s. b = Some (JObj members) \<and> get_item members ''title'' = Some (JStr s)"
  shows "\<exists>errs. errs \<noteq> []
      \<and> call_endpoint conv now create_task params b db = (Inl (RequestValidationError errs), db)
      \<and> respond (fst (call_endpoint conv now create_task params b db)) = UnprocessableEntity errs
      \<and> status_code (UnprocessableEntity errs) = 422"
proof -
  from validate_title_required[OF assms] obtain errs where
    "errs \<noteq> []" "TaskBase_validate b = Inl errs" by blast
  then show ?thesis by simp
qed

text \<open>The theorem at a body whose title is \<^verbatim>\<open>null\<close>.\<close>

theorem create_rejects_missing_or_ill_typed_title_witness:
  "(\<nexists>members s. Some (JObj [(''title'', JNull)]) = Some (JObj members)
        \<and> get_item members ''title'' = Some (JStr s))
   \<and> call_endpoint (\<lambda>s. None) ''t0'' create_task [] (Some (JObj [(''title'', JNull)]))
        \<lparr>tasks = [], autoincrement = 1\<rparr>
      = (Inl (RequestValidationError [StringType ''title'']), \<lparr>tasks = [], autoincrement = 1\<rparr>)"
proof -
  have h: "\<nexists>members s. Some (JObj [(''title'', JNull)]) = Some (JObj members)
        \<and> get_item members ''title'' = Some (JStr s)"
    by (auto simp: get_item_def)
  from create_rejects_missing_or_ill_typed_title[OF h, of "\<lambda>s. None" "''t0''" "[]"
      "\<lparr>tasks = [], autoincrement = 1\<rparr>"] h
  show ?thesis
    by (auto simp: TaskBase_validate_def get_item_def errors_of_def)
qed

text \<open>
  Claim C2 as stated fails for the empty title: on the empty store, a POST with the body
  \<^verbatim>\<open>{"title": ""}\<close> is answered 200 and a row with the empty title is stored.
\<close>

theorem create_empty_title_counterexample:
  "app (\<lambda>s. None) ''t0''
     \<lparr>verb = POST, path = ''/api/tasks/'', body = Some (JObj [(''title'', JStr '''')])\<rparr>
     \<lparr>tasks = [], autoincrement = 1\<rparr>
   = (JSONResponse 200
        (JObj [(''title'', JStr ''''), (''description'', JNull), (''status'', JStr ''PENDING''),
               (''id'', JInt 1), (''created_at'', JStr ''t0''), (''updated_at'', JNull)]),
      \<lparr>tasks = [\<lparr>Task.id = Some 1, Task.title = PyStr '''', Task.description = PyNone,
                  Task.status = PyEnum PENDING, Task.created_at = Some ''t0'',
                  Task.updated_at = None\<rparr>],
        autoincrement = 2\<rparr>)"
  by code_simp

text \<open>
  Claim C3, as amended. The task routes are served under \<^verbatim>\<open>/api\<close>, and the body of a
  PUT is validated before the route function looks the task up. For every id that no row of
  the store has, GET and DELETE on \<^verbatim>\<open>/api/tasks/{id}\<close> are answered 404 with the detail
  \<^verbatim>\<open>Task not found\<close>, and so is PUT when its body passes validation; a PUT whose body
  does not pass is answered 422. In every case the store is unchanged. The three route
  functions raise that 404 for every input they can receive.
\<close>

theorem absent_id_gives_404:
  assumes "Some task_id \<notin> Task.id ` set (tasks db)"
  shows "router_get_task task_id db = (Inl (HTTPException 404 ''Task not found''), db)
     \<and> router_update_task now task_id task db = (Inl (HTTPException 404 ''Task not found''), db)
     \<and> router_delete_task task_id db = (Inl (HTTPException 404 ''Task not found''), db)
     \<and> (seg \<noteq> [] \<and> CHR ''/'' \<notin> set seg \<and> conv seg = Some task_id \<longrightarrow>
          app conv now \<lparr>verb = GET, path = ''/api/tasks/'' @ seg, body = b\<rparr> db
            = (JSONResponse 404 (JObj [(''detail'', JStr ''Task not found'')]), db)
        \<and> app conv now \<lparr>verb = DELETE, path = ''/api/tasks/'' @ seg, body = b\<rparr> db
            = (JSONResponse 404 (JObj [(''detail'', JStr ''Task not found'')]), db)
        \<and> (\<forall>t. TaskBase_validate b = Inr t \<longrightarrow>
             app conv now \<lparr>verb = PUT, path = ''/api/tasks/'' @ seg, body = b\<rparr> db
               = (JSONResponse 404 (JObj [(''detail'', JStr ''Task not found'')]), db))
        \<and> (\<forall>errs. TaskBase_validate b = Inl errs \<longrightarrow>
             app conv now \<lparr>verb = PUT, path = ''/api/tasks/'' @ seg, body = b\<rparr> db
               = (UnprocessableEntity errs, db)))"
proof -
  from assms have n: "find_by_id db task_id = None"
    by (simp add: find_by_id_None_iff)
  have g: "router_get_task task_id db = (Inl (HTTPException 404 ''Task not found''), db)"
    using n by (simp add: router_get_task_def TaskService_get_task_def)
  have u: "router_update_task now task_id t db = (Inl (HTTPException 404 ''Task not found''), db)" for t
    using n by (simp add: router_update_task_def update_task_None)
  have d: "router_delete_task task_id db = (Inl (HTTPException 404 ''Task not found''), db)"
    using n by (simp add: router_delete_task_def delete_task_None)
  have served: "app conv now \<lparr>verb = GET, path = ''/api/tasks/'' @ seg, body = b\<rparr> db
            = (JSONResponse 404 (JObj [(''detail'', JStr ''Task not found'')]), db)
        \<and> app conv now \<lparr>verb = DELETE, path = ''/api/tasks/'' @ seg, body = b\<rparr> db
            = (JSONResponse 404 (JObj [(''detail'', JStr ''Task not found'')]), db)
        \<and> (\<forall>t. TaskBase_validate b = Inr t \<longrightarrow>
             app conv now \<lparr>verb = PUT, path = ''/api/tasks/'' @ seg, body = b\<rparr> db
               = (JSONResponse 404 (JObj [(''detail'', JStr ''Task not found'')]), db))
        \<and> (\<forall>errs. TaskBase_validate b = Inl errs \<longrightarrow>
             app conv now \<lparr>verb = PUT, path = ''/api/tasks/'' @ seg, body = b\<rparr> db
               = (UnprocessableEntity errs, db))"
    if s: "seg \<noteq> []" "CHR ''/'' \<notin> set seg" and c: "conv seg = Some task_id"
  proof -
    have cg: "call_endpoint conv now get_task [seg] b db
        = (Inl (HTTPException 404 ''Task not found''), db)"
      using c g by (simp add: path_task_id_def)
    have cd: "call_endpoint conv now delete_task [seg] b db
        = (Inl (HTTPException 404 ''Task not found''), db)"
      using c d by (simp add: path_task_id_def)
    have cu: "call_endpoint conv now update_task [seg] b db
        = (Inl (HTTPException 404 ''Task not found''), db)" if "TaskBase_validate b = Inr t" for t
      using u[of t] by (simp only: call_update_eq[where conv = conv and seg = seg, OF c that])
    have ce: "call_endpoint conv now update_task [seg] b db
        = (Inl (RequestValidationError errs), db)" if "TaskBase_validate b = Inl errs" for errs
      by (rule call_update_rejected[where conv = conv and seg = seg, OF c that])
    show ?thesis
      unfolding app_item[OF s] using cg cd cu ce by (simp del: call_endpoint.simps)
  qed
  from g u d served show ?thesis by blast
qed

text \<open>The theorem at id 7 and a store whose only row has id 1.\<close>

theorem absent_id_gives_404_witness:
  "Some 7 \<notin> Task.id ` set (tasks \<lparr>tasks = [\<lparr>Task.id = Some 1, Task.title = PyStr ''a'',
        Task.description = PyNone, Task.status = PyEnum PENDING, Task.created_at = Some ''t0'',
        Task.updated_at = None\<rparr>], autoincrement = 2\<rparr>)
   \<and> app (\<lambda>s. if s = ''7'' then Some 7 else None) ''t1''
        \<lparr>verb = DELETE, path = ''/api/tasks/7'', body = None\<rparr>
        \<lparr>tasks = [\<lparr>Task.id = Some 1, Task.title = PyStr ''a'',
        Task.description = PyNone, Task.status = PyEnum PENDING, Task.created_at = Some ''t0'',
        Task.updated_at = None\<rparr>], autoincrement = 2\<rparr>
      = (JSONResponse 404 (JObj [(''detail'', JStr ''Task not found'')]),
         \<lparr>tasks = [\<lparr>Task.id = Some 1, Task.title = PyStr ''a'',
        Task.description = PyNone, Task.status = PyEnum PENDING, Task.created_at = Some ''t0'',
        Task.updated_at = None\<rparr>], autoincrement = 2\<rparr>)
   \<and> app (\<lambda>s. if s = ''7'' then Some 7 else None) ''t1''
        \<lparr>verb = GET, path = ''/api/tasks/7'', body = None\<rparr>
        \<lparr>tasks = [\<lparr>Task.id = Some 1, Task.title = PyStr ''a'',
        Task.description = PyNone, Task.status = PyEnum PENDING, Task.created_at = Some ''t0'',
        Task.updated_at = None\<rparr>], autoincrement = 2\<rparr>
      = (JSONResponse 404 (JObj [(''detail'', JStr ''Task not found'')]),
         \<lparr>tasks = [\<lparr>Task.id = Some 1, Task.title = PyStr ''a'',
        Task.description = PyNone, Task.status = PyEnum PENDING, Task.created_at = Some ''t0'',
        Task.updated_at = None\<rparr>], autoincrement = 2\<rparr>)"
proof -
  let ?db = "\<lparr>tasks = [\<lparr>Task.id = Some 1, Task.title = PyStr ''a'',
        Task.description = PyNone, Task.status = PyEnum PENDING, Task.created_at = Some ''t0'',
        Task.updated_at = None\<rparr>], autoincrement = 2\<rparr>"
  let ?conv = "\<lambda>s. if s = ''7'' then Some (7::int) else None"
  have h: "Some 7 \<notin> Task.id ` set (tasks ?db)" by simp
  have c: "''7'' \<noteq> [] \<and> CHR ''/'' \<notin> set ''7'' \<and> ?conv ''7'' = Some 7" by simp
  from absent_id_gives_404[OF h, where now = "''t1''" and conv = ?conv and seg = "''7''"
      and b = None] c
  have "app ?conv ''t1'' \<lparr>verb = GET, path = ''/api/tasks/'' @ ''7'', body = None\<rparr> ?db
          = (JSONResponse 404 (JObj [(''detail'', JStr ''Task not found'')]), ?db)"
       "app ?conv ''t1'' \<lparr>verb = DELETE, path = ''/api/tasks/'' @ ''7'', body = None\<rparr> ?db
          = (JSONResponse 404 (JObj [(''detail'', JStr ''Task not found'')]), ?db)"
    by blast+
  with h show ?thesis by simp
qed

text \<open>
  Claim C3 as stated fails: with no task 7 in the store, a PUT on \<^verbatim>\<open>/api/tasks/7\<close> whose
  body has no title is answered 422, not 404; and the path \<^verbatim>\<open>/tasks/7\<close> without the
  prefix matches no route, so a GET on it is answered 404 with the detail \<^verbatim>\<open>Not Found\<close>.
\<close>

theorem absent_id_put_counterexample:
  "find_by_id \<lparr>tasks = [\<lparr>Task.id = Some 1, Task.title = PyStr ''a'',
        Task.description = PyNone, Task.status = PyEnum PENDING, Task.created_at = Some ''t0'',
        Task.updated_at = None\<rparr>], autoincrement = 2\<rparr> 7 = None
   \<and> app (\<lambda>s. if s = ''7'' then Some 7 else None) ''t1''
        \<lparr>verb = PUT, path = ''/api/tasks/7'', body = Some (JObj [(''description'', JStr ''b'')])\<rparr>
        \<lparr>tasks = [\<lparr>Task.id = Some 1, Task.title = PyStr ''a'',
        Task.description = PyNone, Task.status = PyEnum PENDING, Task.created_at = Some ''t0'',
        Task.updated_at = None\<rparr>], autoincrement = 2\<rparr>
      = (UnprocessableEntity [Missing ''title''],
         \<lparr>tasks = [\<lparr>Task.id = Some 1, Task.title = PyStr ''a'',
        Task.description = PyNone, Task.status = PyEnum PENDING, Task.created_at = Some ''t0'',
        Task.updated_at = None\<rparr>], autoincrement = 2\<rparr>)
   \<and> app (\<lambda>s. if s = ''7'' then Some 7 else None) ''t1''
        \<lparr>verb = GET, path = ''/tasks/7'', body = None\<rparr>
        \<lparr>tasks = [\<lparr>Task.id = Some 1, Task.title = PyStr ''a'',
        Task.description = PyNone, Task.status = PyEnum PENDING, Task.created_at = Some ''t0'',
        Task.updated_at = None\<rparr>], autoincrement = 2\<rparr>
      = (JSONResponse 404 (JObj [(''detail'', JStr ''Not Found'')]),
         \<lparr>tasks = [\<lparr>Task.id = Some 1, Task.title = PyStr ''a'',
        Task.description = PyNone, Task.status = PyEnum PENDING, Task.created_at = Some ''t0'',
        Task.updated_at = None\<rparr>], autoincrement = 2\<rparr>)"
  by code_simp

text \<open>
  Claim C4, as amended. main.py includes the router under \<^verbatim>\<open>/api\<close>, and the router's
  own paths end in a slash, so the task API is served at \<^verbatim>\<open>/api/tasks/\<close> (list with
  GET, create with POST) and \<^verbatim>\<open>/api/tasks/{id}\<close> (read, update, delete with GET, PUT,
  DELETE), each answering 200 on success in a well-formed store (every store that requests
  can reach is one, by \<open>reachable_store_ok\<close>); \<^verbatim>\<open>/api/tasks\<close> without the slash
  redirects to \<^verbatim>\<open>/api/tasks/\<close>.
\<close>

theorem task_api_served_under_api_prefix:
  assumes "store_ok db"
  shows "(\<exists>cs. app conv now \<lparr>verb = GET, path = ''/api/tasks/'', body = b\<rparr> db
            = (JSONResponse 200 (JArr cs), db))
     \<and> (TaskBase_validate b = Inr task \<longrightarrow>
          (\<exists>c db'. app conv now \<lparr>verb = POST, path = ''/api/tasks/'', body = b\<rparr> db
            = (JSONResponse 200 c, db')))
     \<and> (seg \<noteq> [] \<and> CHR ''/'' \<notin> set seg \<and> conv seg = Some i \<and> find_by_id db i = Some t \<longrightarrow>
          (\<exists>c. app conv now \<lparr>verb = GET, path = ''/api/tasks/'' @ seg, body = b\<rparr> db
            = (JSONResponse 200 c, db))
        \<and> (TaskBase_validate b = Inr task \<longrightarrow>
            (\<exists>c db'. app conv now \<lparr>verb = PUT, path = ''/api/tasks/'' @ seg, body = b\<rparr> db
              = (JSONResponse 200 c, db')))
        \<and> (\<exists>c db'. app conv now \<lparr>verb = DELETE, path = ''/api/tasks/'' @ seg, body = b\<rparr> db
              = (JSONResponse 200 c, db')))
     \<and> app conv now \<lparr>verb = GET, path = ''/api/tasks'', body = b\<rparr> db
          = (RedirectResponse ''/api/tasks/'', db)"
proof -
  have list: "\<exists>cs. app conv now \<lparr>verb = GET, path = ''/api/tasks/'', body = b\<rparr> db
            = (JSONResponse 200 (JArr cs), db)"
  proof -
    from assms have "list_all row_ok (find_all db)" by (simp add: store_ok_def find_all_def)
    from serialize_tasks_row_ok[OF this] show ?thesis
      by (auto simp: app_def full_match_collection router_get_tasks_def TaskService_get_all_tasks_def)
  qed
  have create: "\<exists>c db'. app conv now \<lparr>verb = POST, path = ''/api/tasks/'', body = b\<rparr> db
            = (JSONResponse 200 c, db')" if "TaskBase_validate b = Inr task"
    using call_create_valid[OF that, of conv now "[]" db]
    by (auto simp: app_def full_match_collection)
  have item: "(\<exists>c. app conv now \<lparr>verb = GET, path = ''/api/tasks/'' @ seg, body = b\<rparr> db
            = (JSONResponse 200 c, db))
        \<and> (TaskBase_validate b = Inr task \<longrightarrow>
            (\<exists>c db'. app conv now \<lparr>verb = PUT, path = ''/api/tasks/'' @ seg, body = b\<rparr> db
              = (JSONResponse 200 c, db')))
        \<and> (\<exists>c db'. app conv now \<lparr>verb = DELETE, path = ''/api/tasks/'' @ seg, body = b\<rparr> db
              = (JSONResponse 200 c, db'))"
    if s: "seg \<noteq> []" "CHR ''/'' \<notin> set seg" and c: "conv seg = Some i" and f: "find_by_id db i = Some t"
  proof -
    have m: "full_match m (CHR ''/'' # CHR ''a'' # CHR ''p'' # CHR ''i'' # CHR ''/'' # CHR ''t''
        # CHR ''a'' # CHR ''s'' # CHR ''k'' # CHR ''s'' # CHR ''/'' # seg) app_routes =
           (if m = GET then Some (get_task, [seg])
            else if m = PUT then Some (update_task, [seg])
            else if m = DELETE then Some (delete_task, [seg])
            else None)" for m
      using full_match_item[OF s, of m] by simp
    have g: "\<exists>c. app conv now \<lparr>verb = GET, path = ''/api/tasks/'' @ seg, body = b\<rparr> db
            = (JSONResponse 200 c, db)"
      using call_get_present[where conv = conv and seg = seg, OF assms f c, of now b]
      by (auto simp: app_def m)
    have u: "\<exists>c db'. app conv now \<lparr>verb = PUT, path = ''/api/tasks/'' @ seg, body = b\<rparr> db
              = (JSONResponse 200 c, db')" if v: "TaskBase_validate b = Inr task"
    proof -
      from call_update_present[where conv = conv and seg = seg, OF assms f c v, of now]
      obtain c db' where "call_endpoint conv now update_task [seg] b db = (Inr c, db')" by blast
      then show ?thesis by (simp add: app_def m)
    qed
    have d: "\<exists>c db'. app conv now \<lparr>verb = DELETE, path = ''/api/tasks/'' @ seg, body = b\<rparr> db
              = (JSONResponse 200 c, db')"
      using c f by (simp add: app_def m path_task_id_def router_delete_task_def delete_task_Some)
    from g u d show ?thesis by blast
  qed
  have redirect: "app conv now \<lparr>verb = GET, path = ''/api/tasks'', body = b\<rparr> db
          = (RedirectResponse ''/api/tasks/'', db)"
    by (simp add: app_def app_routes_def include_router_def router_routes_def router_prefix_def
        match_path_def is_param_def toggle_slash_def)
  from list create item redirect show ?thesis by blast
qed

text \<open>The theorem at a store with task 1 and the path \<^verbatim>\<open>/api/tasks/1\<close>.\<close>

theorem task_api_served_under_api_prefix_witness:
  "store_ok \<lparr>tasks = [\<lparr>Task.id = Some 1, Task.title = PyStr ''a'', Task.description = PyNone,
        Task.status = PyEnum PENDING, Task.created_at = Some ''t0'', Task.updated_at = None\<rparr>],
      autoincrement = 2\<rparr>
   \<and> (\<exists>c. app (\<lambda>s. if s = ''1'' then Some 1 else None) ''t1''
        \<lparr>verb = GET, path = ''/api/tasks/1'', body = None\<rparr>
        \<lparr>tasks = [\<lparr>Task.id = Some 1, Task.title = PyStr ''a'', Task.description = PyNone,
            Task.status = PyEnum PENDING, Task.created_at = Some ''t0'', Task.updated_at = None\<rparr>],
          autoincrement = 2\<rparr>
       = (JSONResponse 200 c,
          \<lparr>tasks = [\<lparr>Task.id = Some 1, Task.title = PyStr ''a'', Task.description = PyNone,
            Task.status = PyEnum PENDING, Task.created_at = Some ''t0'', Task.updated_at = None\<rparr>],
          autoincrement = 2\<rparr>))"
proof -
  let ?row = "\<lparr>Task.id = Some 1, Task.title = PyStr ''a'', Task.description = PyNone,
        Task.status = PyEnum PENDING, Task.created_at = Some ''t0'', Task.updated_at = None\<rparr>"
  let ?db = "\<lparr>tasks = [?row], autoincrement = 2\<rparr>"
  let ?conv = "\<lambda>s. if s = ''1'' then Some (1::int) else None"
  have ok: "store_ok ?db"
    by (simp add: store_ok_def row_ok_def is_str_def is_enum_def)
  have f: "find_by_id ?db 1 = Some ?row" by (simp add: find_by_id_def)
  from task_api_served_under_api_prefix[where conv = ?conv and seg = "''1''" and i = 1
      and t = ?row and now = "''t1''" and b = None, OF ok] f ok
  show ?thesis by simp
qed

text \<open>
  Claim C4 as stated fails: no route matches \<^verbatim>\<open>GET /tasks\<close>, which is answered 404
  \<^verbatim>\<open>Not Found\<close>, while \<^verbatim>\<open>GET /api/tasks/\<close> is answered 200 with the list.
\<close>

theorem unprefixed_tasks_path_counterexample:
  "app (\<lambda>s. None) ''t0'' \<lparr>verb = GET, path = ''/tasks'', body = None\<rparr>
     \<lparr>tasks = [], autoincrement = 1\<rparr>
   = (JSONResponse 404 (JObj [(''detail'', JStr ''Not Found'')]), \<lparr>tasks = [], autoincrement = 1\<rparr>)
   \<and> app (\<lambda>s. None) ''t0'' \<lparr>verb = GET, path = ''/api/tasks/'', body = None\<rparr>
     \<lparr>tasks = [], autoincrement = 1\<rparr>
   = (JSONResponse 200 (JArr []), \<lparr>tasks = [], autoincrement = 1\<rparr>)"
  by code_simp

text \<open>
  Claim C5. For every create request that passes validation and whose body has no
  \<^verbatim>\<open>status\<close>, the row that is appended to the table has the status \<^verbatim>\<open>PENDING\<close>
  and the response carries the status \<^verbatim>\<open>"PENDING"\<close>.
\<close>

theorem create_without_status_is_pending:
  assumes "TaskBase_validate (Some (JObj members)) = Inr task"
    and "get_item members ''status'' = None"
  shows "\<exists>c t. call_endpoint conv now create_task params (Some (JObj members)) db
        = (Inr c, db\<lparr>tasks := tasks db @ [t], autoincrement := autoincrement db + 1\<rparr>)
      \<and> Task.status t = PyEnum PENDING
      \<and> json_get c ''status'' = Some (JStr ''PENDING'')"
proof -
  from call_create_valid[OF assms(1), of conv now params db] obtain r where
    r: "call_endpoint conv now create_task params (Some (JObj members)) db
          = (Inr (jsonable r), snd (TaskService_create_task now db task))"
       "TaskBase.status r = TaskBase.status task"
    by blast
  let ?t = "fst (TaskService_create_task now db task)"
  have p: "TaskBase.status task = PENDING"
    using validate_Inr(7)[OF assms] .
  have "snd (TaskService_create_task now db task)
      = db\<lparr>tasks := tasks db @ [?t], autoincrement := autoincrement db + 1\<rparr>"
    by (simp add: create_task_eq Let_def)
  moreover have "Task.status ?t = PyEnum PENDING"
    using p by (simp add: create_task_eq Let_def)
  moreover have "json_get (jsonable r) ''status'' = Some (JStr ''PENDING'')"
    using p r(2) by (simp add: json_get_jsonable)
  ultimately show ?thesis
    using r(1) by (intro exI[of _ "jsonable r"] exI[of _ ?t]) simp
qed

text \<open>The theorem at the body \<^verbatim>\<open>{"title": "x"}\<close> and the empty store.\<close>

theorem create_without_status_is_pending_witness:
  "TaskBase_validate (Some (JObj [(''title'', JStr ''x'')]))
     = Inr \<lparr>TaskBase.title = ''x'', TaskBase.description = None, TaskBase.status = PENDING,
            fields_set = {''title''}\<rparr>
   \<and> get_item [(''title'', JStr ''x'')] ''status'' = None
   \<and> (\<exists>c t. call_endpoint (\<lambda>s. None) ''t0'' create_task [] (Some (JObj [(''title'', JStr ''x'')]))
          \<lparr>tasks = [], autoincrement = 1\<rparr>
        = (Inr c, \<lparr>tasks = [t], autoincrement = 2\<rparr>)
      \<and> Task.status t = PyEnum PENDING
      \<and> json_get c ''status'' = Some (JStr ''PENDING''))"
proof -
  have v: "TaskBase_validate (Some (JObj [(''title'', JStr ''x'')]))
     = Inr \<lparr>TaskBase.title = ''x'', TaskBase.description = None, TaskBase.status = PENDING,
            fields_set = {''title''}\<rparr>"
    by (simp add: TaskBase_validate_def get_item_def)
  have g: "get_item [(''title'', JStr ''x'')] ''status'' = None"
    by (simp add: get_item_def)
  from create_without_status_is_pending[OF v g, of "\<lambda>s. None" "''t0''" "[]"
      "\<lparr>tasks = [], autoincrement = 1\<rparr>"] v g
  show ?thesis by simp
qed

text \<open>
  Claim C6. In a well-formed store (every store that requests can reach is one, by
  \<open>reachable_store_ok\<close>), for every create input that passes validation, the
  create call returns the new task with its id, and fetching that id afterwards yields the
  task whose title, description and status are those of the input: the stored values are
  the validated ones, and the fetched view repeats each of the three members that the
  input body supplied.
\<close>

theorem create_then_get_round_trip:
  assumes "store_ok db" and "TaskBase_validate (Some (JObj members)) = Inr task"
  shows "\<exists>c db' i.
      call_endpoint conv now create_task params (Some (JObj members)) db = (Inr c, db')
      \<and> json_get c ''id'' = Some (JInt i)
      \<and> (\<exists>t. TaskService_get_task db' i = (Some t, db')
            \<and> Task.title t = PyStr (TaskBase.title task)
            \<and> Task.description t
                = (case TaskBase.description task of None \<Rightarrow> PyNone | Some s \<Rightarrow> PyStr s)
            \<and> Task.status t = PyEnum (TaskBase.status task))
      \<and> (\<forall>seg now' b. conv seg = Some i \<longrightarrow>
            (\<exists>c'. call_endpoint conv now' get_task [seg] b db' = (Inr c', db')
               \<and> json_get c' ''title'' = get_item members ''title''
               \<and> (\<forall>v. get_item members ''description'' = Some v
                      \<longrightarrow> json_get c' ''description'' = Some v)
               \<and> (\<forall>v. get_item members ''status'' = Some v
                      \<longrightarrow> json_get c' ''status'' = Some v)))"
proof -
  let ?i = "autoincrement db"
  let ?t = "fst (TaskService_create_task now db task)"
  let ?db' = "snd (TaskService_create_task now db task)"
  from call_create_valid[OF assms(2), of conv now params db] obtain r where
    r: "call_endpoint conv now create_task params (Some (JObj members)) db = (Inr (jsonable r), ?db')"
       "TaskResponse.id r = ?i"
    by blast
  have fresh: "find_by_id db ?i = None"
    using assms(1) by (auto simp: find_by_id_def find_None_iff store_ok_def list_all_iff split: option.splits)
  have look: "find_by_id ?db' ?i = Some ?t"
    using fresh by (simp add: find_by_id_def create_task_eq Let_def find_id_append)
  have fields: "Task.title ?t = PyStr (TaskBase.title task)"
    "Task.description ?t = (case TaskBase.description task of None \<Rightarrow> PyNone | Some s \<Rightarrow> PyStr s)"
    "Task.status ?t = PyEnum (TaskBase.status task)"
    by (simp_all add: create_task_eq Let_def)
  have ok': "store_ok ?db'" by (rule store_ok_create[OF assms(1)])
  have get: "\<exists>c'. call_endpoint conv now' get_task [seg] b ?db' = (Inr c', ?db')
               \<and> json_get c' ''title'' = get_item members ''title''
               \<and> (\<forall>v. get_item members ''description'' = Some v
                      \<longrightarrow> json_get c' ''description'' = Some v)
               \<and> (\<forall>v. get_item members ''status'' = Some v
                      \<longrightarrow> json_get c' ''status'' = Some v)"
    if c: "conv seg = Some ?i" for seg now' b
  proof -
    from call_get_present[where conv = conv and seg = seg, OF ok' look c, of now' b]
    obtain r' where
      r': "call_endpoint conv now' get_task [seg] b ?db' = (Inr (jsonable r'), ?db')"
          "Task.title ?t = PyStr (TaskBase.title r')"
          "Task.description ?t = (case TaskBase.description r' of None \<Rightarrow> PyNone | Some s \<Rightarrow> PyStr s)"
          "Task.status ?t = PyEnum (TaskBase.status r')"
      by blast
    have t: "TaskBase.title r' = TaskBase.title task" and s: "TaskBase.status r' = TaskBase.status task"
      using r'(2,4) fields by simp_all
    have d: "TaskBase.description r' = TaskBase.description task"
      using r'(3) fields(2) by (auto split: option.splits)
    have "json_get (jsonable r') ''title'' = get_item members ''title''"
      using validate_Inr(1)[OF assms(2)] t by (simp add: json_get_jsonable)
    moreover have "json_get (jsonable r') ''description'' = Some v"
      if "get_item members ''description'' = Some v" for v
      using validate_Inr(6)[OF assms(2) that, symmetric] d
      by (cases v) (auto simp: json_get_jsonable)
    moreover have "json_get (jsonable r') ''status'' = Some v"
      if "get_item members ''status'' = Some v" for v
      using validate_Inr(8)[OF assms(2) that] s
      by (cases v) (auto simp: json_get_jsonable dest: TaskStatus_of_value_Inr)
    ultimately show ?thesis using r'(1) by blast
  qed
  have "TaskService_get_task ?db' ?i = (Some ?t, ?db')"
    using look by (simp add: TaskService_get_task_def)
  moreover have "json_get (jsonable r) ''id'' = Some (JInt ?i)"
    using r(2) by (simp add: json_get_jsonable)
  ultimately show ?thesis
    using r(1) fields get
    by (intro exI[of _ "jsonable r"] exI[of _ ?db'] exI[of _ ?i]) blast
qed

text \<open>The theorem at the empty store and a body with all three fields.\<close>

theorem create_then_get_round_trip_witness:
  "store_ok \<lparr>tasks = [], autoincrement = 1\<rparr>
   \<and> TaskBase_validate (Some (JObj [(''title'', JStr ''Test Task''),
          (''description'', JStr ''Test Description''), (''status'', JStr ''IN_PROGRESS'')]))
       = Inr \<lparr>TaskBase.title = ''Test Task'', TaskBase.description = Some ''Test Description'',
              TaskBase.status = IN_PROGRESS, fields_set = {''title'', ''description'', ''status''}\<rparr>
   \<and> (\<exists>c db' i.
        call_endpoint (\<lambda>s. if s = ''1'' then Some 1 else None) ''t0'' create_task []
          (Some (JObj [(''title'', JStr ''Test Task''),
             (''description'', JStr ''Test Description''), (''status'', JStr ''IN_PROGRESS'')]))
          \<lparr>tasks = [], autoincrement = 1\<rparr> = (Inr c, db')
        \<and> json_get c ''id'' = Some (JInt i)
        \<and> (\<exists>t. TaskService_get_task db' i = (Some t, db')
              \<and> Task.title t = PyStr ''Test Task''
              \<and> Task.description t = PyStr ''Test Description''
              \<and> Task.status t = PyEnum IN_PROGRESS))"
proof -
  let ?members = "[(''title'', JStr ''Test Task''),
          (''description'', JStr ''Test Description''), (''status'', JStr ''IN_PROGRESS'')]"
  let ?task = "\<lparr>TaskBase.title = ''Test Task'', TaskBase.description = Some ''Test Description'',
              TaskBase.status = IN_PROGRESS, fields_set = {''title'', ''description'', ''status''}\<rparr>"
  have ok: "store_ok \<lparr>tasks = [], autoincrement = 1\<rparr>" by (simp add: store_ok_def)
  have v: "TaskBase_validate (Some (JObj ?members)) = Inr ?task"
    by (simp add: TaskBase_validate_def get_item_def TaskStatus_of_value_def)
  from create_then_get_round_trip[where conv = "\<lambda>s. if s = ''1'' then Some 1 else None"
      and now = "''t0''" and params = "[]", OF ok v] ok v
  show ?thesis by (simp only: TaskBase.simps option.case) blast
qed

text \<open>
  Claim C7. \<^verbatim>\<open>delete_task(id)\<close> returns false and leaves the store as it is when no
  row has the id, and the DELETE route answers 404. When a row has it,
  \<^verbatim>\<open>delete_task(id)\<close> returns true, the table loses the rows with that id and nothing
  else (exactly that one row, in a well-formed store); the DELETE route, and a DELETE request
  to the application on \<^verbatim>\<open>/api/tasks/{id}\<close>, answer 200 with the confirmation message
  and leave that store; and a subsequent GET on the id, by the route function or by a request
  to the application, is answered 404 with the detail \<^verbatim>\<open>Task not found\<close>.
\<close>

theorem delete_task_removes_the_row:
  "(find_by_id db task_id = None \<longrightarrow>
        TaskService_delete_task db task_id = (False, db)
      \<and> router_delete_task task_id db = (Inl (HTTPException 404 ''Task not found''), db))
   \<and> (\<forall>t. find_by_id db task_id = Some t \<longrightarrow>
        (\<exists>db'. TaskService_delete_task db task_id = (True, db')
           \<and> tasks db' = filter (\<lambda>r. Task.id r \<noteq> Some task_id) (tasks db)
           \<and> autoincrement db' = autoincrement db
           \<and> (store_ok db \<longrightarrow> tasks db' = remove1 t (tasks db))
           \<and> find_by_id db' task_id = None
           \<and> router_get_task task_id db' = (Inl (HTTPException 404 ''Task not found''), db')
           \<and> respond (fst (router_get_task task_id db'))
               = JSONResponse 404 (JObj [(''detail'', JStr ''Task not found'')])
           \<and> router_delete_task task_id db
               = (Inr (JObj [(''message'', JStr ''Task deleted successfully'')]), db')
           \<and> (seg \<noteq> [] \<and> CHR ''/'' \<notin> set seg \<and> conv seg = Some task_id \<longrightarrow>
                app conv now \<lparr>verb = DELETE, path = ''/api/tasks/'' @ seg, body = b\<rparr> db
                  = (JSONResponse 200 (JObj [(''message'', JStr ''Task deleted successfully'')]), db')
              \<and> app conv now' \<lparr>verb = GET, path = ''/api/tasks/'' @ seg, body = b'\<rparr> db'
                  = (JSONResponse 404 (JObj [(''detail'', JStr ''Task not found'')]), db'))))"
proof (intro conjI allI impI)
  assume "find_by_id db task_id = None"
  then show "TaskService_delete_task db task_id = (False, db)"
    by (rule delete_task_None)
next
  assume "find_by_id db task_id = None"
  then show "router_delete_task task_id db = (Inl (HTTPException 404 ''Task not found''), db)"
    by (simp add: router_delete_task_def delete_task_None)
next
  fix t
  assume f: "find_by_id db task_id = Some t"
  define db' where "db' = db\<lparr>tasks := filter (\<lambda>r. Task.id r \<noteq> Some task_id) (tasks db)\<rparr>"
  have d: "TaskService_delete_task db task_id = (True, db')"
    using f by (simp add: delete_task_Some db'_def)
  have gone: "find_by_id db' task_id = None"
    by (simp add: find_by_id_def db'_def find_id_filter)
  have one: "tasks db' = remove1 t (tasks db)" if "store_ok db"
  proof -
    from f have "Task.id t = Some task_id" "t \<in> set (tasks db)"
      by (simp_all add: find_by_id_SomeD)
    moreover from that have "distinct (map Task.id (tasks db))" by (simp add: store_ok_def)
    ultimately show ?thesis
      using filter_id_remove1[of "tasks db" t] by (simp add: db'_def)
  qed
  have get: "router_get_task task_id db' = (Inl (HTTPException 404 ''Task not found''), db')"
    using gone by (simp add: router_get_task_def TaskService_get_task_def)
  have rd: "router_delete_task task_id db
      = (Inr (JObj [(''message'', JStr ''Task deleted successfully'')]), db')"
    using d by (simp add: router_delete_task_def)
  have served: "app conv now \<lparr>verb = DELETE, path = ''/api/tasks/'' @ seg, body = b\<rparr> db
                  = (JSONResponse 200 (JObj [(''message'', JStr ''Task deleted successfully'')]), db')
              \<and> app conv now' \<lparr>verb = GET, path = ''/api/tasks/'' @ seg, body = b'\<rparr> db'
                  = (JSONResponse 404 (JObj [(''detail'', JStr ''Task not found'')]), db')"
    if s: "seg \<noteq> []" "CHR ''/'' \<notin> set seg" and c: "conv seg = Some task_id"
  proof -
    have "call_endpoint conv now delete_task [seg] b db
        = (Inr (JObj [(''message'', JStr ''Task deleted successfully'')]), db')"
      using c rd by (simp add: path_task_id_def)
    moreover have "call_endpoint conv now' get_task [seg] b' db'
        = (Inl (HTTPException 404 ''Task not found''), db')"
      using c get by (simp add: path_task_id_def)
    ultimately show ?thesis
      unfolding app_item[OF s] by (simp del: call_endpoint.simps)
  qed
  show "\<exists>db'. TaskService_delete_task db task_id = (True, db')
           \<and> tasks db' = filter (\<lambda>r. Task.id r \<noteq> Some task_id) (tasks db)
           \<and> autoincrement db' = autoincrement db
           \<and> (store_ok db \<longrightarrow> tasks db' = remove1 t (tasks db))
           \<and> find_by_id db' task_id = None
           \<and> router_get_task task_id db' = (Inl (HTTPException 404 ''Task not found''), db')
           \<and> respond (fst (router_get_task task_id db'))
               = JSONResponse 404 (JObj [(''detail'', JStr ''Task not found'')])
           \<and> router_delete_task task_id db
               = (Inr (JObj [(''message'', JStr ''Task deleted successfully'')]), db')
           \<and> (seg \<noteq> [] \<and> CHR ''/'' \<notin> set seg \<and> conv seg = Some task_id \<longrightarrow>
                app conv now \<lparr>verb = DELETE, path = ''/api/tasks/'' @ seg, body = b\<rparr> db
                  = (JSONResponse 200 (JObj [(''message'', JStr ''Task deleted successfully'')]), db')
              \<and> app conv now' \<lparr>verb = GET, path = ''/api/tasks/'' @ seg, body = b'\<rparr> db'
                  = (JSONResponse 404 (JObj [(''detail'', JStr ''Task not found'')]), db'))"
    using d gone one get rd served
    by (intro exI[of _ db']) (simp add: db'_def del: call_endpoint.simps)
qed

text \<open>
  The theorem at a store with tasks 1 and 2: a DELETE request for task 1 is answered 200 and
  leaves task 2 alone, the GET that follows is answered 404, and deleting again returns false.
\<close>

theorem delete_task_removes_the_row_witness:
  "app (\<lambda>s. if s = ''1'' then Some 1 else None) ''t2''
     \<lparr>verb = DELETE, path = ''/api/tasks/1'', body = None\<rparr>
     \<lparr>tasks = [\<lparr>Task.id = Some 1, Task.title = PyStr ''a'', Task.description = PyNone,
          Task.status = PyEnum PENDING, Task.created_at = Some ''t0'', Task.updated_at = None\<rparr>,
        \<lparr>Task.id = Some 2, Task.title = PyStr ''b'', Task.description = PyNone,
          Task.status = PyEnum COMPLETED, Task.created_at = Some ''t1'', Task.updated_at = None\<rparr>],
      autoincrement = 3\<rparr>
   = (JSONResponse 200 (JObj [(''message'', JStr ''Task deleted successfully'')]),
      \<lparr>tasks = [\<lparr>Task.id = Some 2, Task.title = PyStr ''b'', Task.description = PyNone,
          Task.status = PyEnum COMPLETED, Task.created_at = Some ''t1'', Task.updated_at = None\<rparr>],
      autoincrement = 3\<rparr>)
   \<and> app (\<lambda>s. if s = ''1'' then Some 1 else None) ''t3''
     \<lparr>verb = GET, path = ''/api/tasks/1'', body = None\<rparr>
     \<lparr>tasks = [\<lparr>Task.id = Some 2, Task.title = PyStr ''b'', Task.description = PyNone,
          Task.status = PyEnum COMPLETED, Task.created_at = Some ''t1'', Task.updated_at = None\<rparr>],
      autoincrement = 3\<rparr>
   = (JSONResponse 404 (JObj [(''detail'', JStr ''Task not found'')]),
      \<lparr>tasks = [\<lparr>Task.id = Some 2, Task.title = PyStr ''b'', Task.description = PyNone,
          Task.status = PyEnum COMPLETED, Task.created_at = Some ''t1'', Task.updated_at = None\<rparr>],
      autoincrement = 3\<rparr>)
   \<and> TaskService_delete_task
     \<lparr>tasks = [\<lparr>Task.id = Some 2, Task.title = PyStr ''b'', Task.description = PyNone,
          Task.status = PyEnum COMPLETED, Task.created_at = Some ''t1'', Task.updated_at = None\<rparr>],
      autoincrement = 3\<rparr> 1
   = (False,
      \<lparr>tasks = [\<lparr>Task.id = Some 2, Task.title = PyStr ''b'', Task.description = PyNone,
          Task.status = PyEnum COMPLETED, Task.created_at = Some ''t1'', Task.updated_at = None\<rparr>],
      autoincrement = 3\<rparr>)"
proof -
  let ?r1 = "\<lparr>Task.id = Some 1, Task.title = PyStr ''a'', Task.description = PyNone,
          Task.status = PyEnum PENDING, Task.created_at = Some ''t0'', Task.updated_at = None\<rparr>"
  let ?r2 = "\<lparr>Task.id = Some 2, Task.title = PyStr ''b'', Task.description = PyNone,
          Task.status = PyEnum COMPLETED, Task.created_at = Some ''t1'', Task.updated_at = None\<rparr>"
  let ?db = "\<lparr>tasks = [?r1, ?r2], autoincrement = 3\<rparr>"
  let ?db' = "\<lparr>tasks = [?r2], autoincrement = 3\<rparr>"
  let ?conv = "\<lambda>s. if s = ''1'' then Some (1::int) else None"
  have f: "find_by_id ?db 1 = Some ?r1" by (simp add: find_by_id_def)
  have n: "find_by_id ?db' 1 = None" by (simp add: find_by_id_def)
  have c: "''1'' \<noteq> [] \<and> CHR ''/'' \<notin> set ''1'' \<and> ?conv ''1'' = Some 1" by simp
  from delete_task_removes_the_row[where db = ?db and task_id = 1 and conv = ?conv
      and seg = "''1''" and now = "''t2''" and now' = "''t3''" and b = None and b' = None] f c
  obtain db' where
    d: "tasks db' = filter (\<lambda>r. Task.id r \<noteq> Some 1) (tasks ?db)"
       "autoincrement db' = autoincrement ?db"
       "app ?conv ''t2'' \<lparr>verb = DELETE, path = ''/api/tasks/'' @ ''1'', body = None\<rparr> ?db
          = (JSONResponse 200 (JObj [(''message'', JStr ''Task deleted successfully'')]), db')"
       "app ?conv ''t3'' \<lparr>verb = GET, path = ''/api/tasks/'' @ ''1'', body = None\<rparr> db'
          = (JSONResponse 404 (JObj [(''detail'', JStr ''Task not found'')]), db')"
    by blast
  from d(1,2) have e: "db' = ?db'" by (cases db') simp
  from delete_task_removes_the_row[where db = ?db' and task_id = 1] n
  have "TaskService_delete_task ?db' 1 = (False, ?db')" by blast
  with d(3,4) show ?thesis unfolding e by simp
qed

text \<open>
  Claim C8. In every state that requests to the application can reach from the empty
  table, the status of every stored row is one of the three members of the enum; and
  whenever an endpoint returns a task view, or a list of them, each status in it is one of
  the three string literals.
\<close>

theorem status_is_always_enumerated:
  assumes "reachable db"
  shows "(\<forall>t \<in> set (tasks db).
            Task.status t \<in> {PyEnum PENDING, PyEnum IN_PROGRESS, PyEnum COMPLETED})
     \<and> (\<forall>c db'. call_endpoint conv now e params b db = (Inr c, db') \<longrightarrow>
          (e \<in> {create_task, get_task, update_task} \<longrightarrow>
             json_get c ''status''
               \<in> {Some (JStr ''PENDING''), Some (JStr ''IN_PROGRESS''), Some (JStr ''COMPLETED'')})
        \<and> (e = get_tasks \<longrightarrow>
             (\<exists>cs. c = JArr cs \<and> (\<forall>x \<in> set cs. json_get x ''status''
               \<in> {Some (JStr ''PENDING''), Some (JStr ''IN_PROGRESS''), Some (JStr ''COMPLETED'')}))))"
proof (intro conjI ballI allI impI)
  fix t
  assume "t \<in> set (tasks db)"
  with reachable_store_ok[OF assms] have "is_enum (Task.status t)"
    by (simp add: store_ok_def list_all_iff row_ok_def)
  then obtain s where "Task.status t = PyEnum s"
    by (auto simp: is_enum_def split: pyval.splits)
  then show "Task.status t \<in> {PyEnum PENDING, PyEnum IN_PROGRESS, PyEnum COMPLETED}"
    by (cases s) simp_all
next
  fix c db'
  assume r: "call_endpoint conv now e params b db = (Inr c, db')"
    and e: "e \<in> {create_task, get_task, update_task}"
  have "\<exists>t. serialize_task t = Inr c"
    using r e
    by (auto simp: router_create_task_def router_get_task_def router_update_task_def
          TaskService_get_task_def split_beta split: sum.splits option.splits prod.splits)
  then obtain s where "json_get c ''status'' = Some (JStr (TaskStatus_value s))"
    using serialize_task_status by blast
  then show "json_get c ''status''
      \<in> {Some (JStr ''PENDING''), Some (JStr ''IN_PROGRESS''), Some (JStr ''COMPLETED'')}"
    by (cases s) simp_all
next
  fix c db'
  assume r: "call_endpoint conv now e params b db = (Inr c, db')" and e: "e = get_tasks"
  then have "serialize_tasks (find_all db) = Inr c"
    by (auto simp: router_get_tasks_def TaskService_get_all_tasks_def)
  from serialize_tasks_status[OF this] obtain cs where
    cs: "c = JArr cs" "\<forall>x \<in> set cs. \<exists>s. json_get x ''status'' = Some (JStr (TaskStatus_value s))"
    by blast
  have "json_get x ''status''
      \<in> {Some (JStr ''PENDING''), Some (JStr ''IN_PROGRESS''), Some (JStr ''COMPLETED'')}"
    if "x \<in> set cs" for x
  proof -
    from cs(2) that obtain s where "json_get x ''status'' = Some (JStr (TaskStatus_value s))"
      by blast
    then show ?thesis by (cases s) simp_all
  qed
  with cs(1) show "\<exists>cs. c = JArr cs \<and> (\<forall>x \<in> set cs. json_get x ''status''
      \<in> {Some (JStr ''PENDING''), Some (JStr ''IN_PROGRESS''), Some (JStr ''COMPLETED'')})"
    by blast
qed

text \<open>The theorem at the state reached by one POST on the empty table.\<close>

theorem status_is_always_enumerated_witness:
  "reachable \<lparr>tasks = [\<lparr>Task.id = Some 1, Task.title = PyStr ''a'', Task.description = PyNone,
        Task.status = PyEnum COMPLETED, Task.created_at = Some ''t0'', Task.updated_at = None\<rparr>],
      autoincrement = 2\<rparr>
   \<and> Task.status \<lparr>Task.id = Some 1, Task.title = PyStr ''a'', Task.description = PyNone,
        Task.status = PyEnum COMPLETED, Task.created_at = Some ''t0'', Task.updated_at = None\<rparr>
       \<in> {PyEnum PENDING, PyEnum IN_PROGRESS, PyEnum COMPLETED}"
proof -
  let ?row = "\<lparr>Task.id = Some 1, Task.title = PyStr ''a'', Task.description = PyNone,
        Task.status = PyEnum COMPLETED, Task.created_at = Some ''t0'', Task.updated_at = None\<rparr>"
  let ?db = "\<lparr>tasks = [?row], autoincrement = 2\<rparr>"
  let ?req = "\<lparr>verb = POST, path = ''/api/tasks/'',
      body = Some (JObj [(''title'', JStr ''a''), (''status'', JStr ''COMPLETED'')])\<rparr>"
  have "snd (app (\<lambda>s. None) ''t0'' ?req \<lparr>tasks = [], autoincrement = 1\<rparr>) = ?db"
    by code_simp
  with reachable.step[OF reachable.start, of "\<lambda>s. None" "''t0''" ?req]
  have r: "reachable ?db" by simp
  from status_is_always_enumerated[OF r] have
    "\<forall>t \<in> set (tasks ?db). Task.status t \<in> {PyEnum PENDING, PyEnum IN_PROGRESS, PyEnum COMPLETED}"
    by blast
  with r show ?thesis by simp
qed

text \<open>
  Claim C9, as amended. An update looks at which members the body has, not at their
  values, but only after the body has passed validation, which requires \<^verbatim>\<open>title\<close>.
  For every task present in the store and every PUT on its id: a member that the body omits
  leaves the stored field unchanged; when the body passes validation, a member that the
  body supplies overwrites the stored field with the supplied value, also when that value
  is the default of the schema (\<^verbatim>\<open>status\<close> \<^verbatim>\<open>PENDING\<close>) or an explicit null
  (\<^verbatim>\<open>description\<close>, stored as \<^verbatim>\<open>None\<close>); and when the body does not pass
  validation, as every body without \<^verbatim>\<open>title\<close> does not, the request is rejected and
  the stored row stays as it was.
\<close>

theorem update_is_presence_aware:
  assumes "find_by_id db task_id = Some old" and "conv seg = Some task_id"
  shows "\<exists>new. find_by_id (snd (call_endpoint conv now update_task [seg] b db)) task_id = Some new
     \<and> (\<forall>members. b = Some (JObj members) \<longrightarrow>
          (get_item members ''title'' = None \<longrightarrow> Task.title new = Task.title old)
        \<and> (get_item members ''description'' = None \<longrightarrow> Task.description new = Task.description old)
        \<and> (get_item members ''status'' = None \<longrightarrow> Task.status new = Task.status old)
        \<and> (\<forall>task. TaskBase_validate b = Inr task \<longrightarrow>
              (\<forall>s. get_item members ''title'' = Some (JStr s) \<longrightarrow> Task.title new = PyStr s)
            \<and> (get_item members ''description'' = Some JNull \<longrightarrow> Task.description new = PyNone)
            \<and> (\<forall>s. get_item members ''description'' = Some (JStr s)
                   \<longrightarrow> Task.description new = PyStr s)
            \<and> (\<forall>s. get_item members ''status'' = Some (JStr (TaskStatus_value s))
                   \<longrightarrow> Task.status new = PyEnum s))
        \<and> (get_item members ''title'' = None \<longrightarrow> new = old))
     \<and> (\<forall>errs. TaskBase_validate b = Inl errs \<longrightarrow>
           new = old
         \<and> call_endpoint conv now update_task [seg] b db
             = (Inl (RequestValidationError errs), db))
     \<and> (seg \<noteq> [] \<and> CHR ''/'' \<notin> set seg \<longrightarrow>
           app conv now \<lparr>verb = PUT, path = ''/api/tasks/'' @ seg, body = b\<rparr> db
             = (respond (fst (call_endpoint conv now update_task [seg] b db)),
                snd (call_endpoint conv now update_task [seg] b db)))"
proof -
  have link: "seg \<noteq> [] \<and> CHR ''/'' \<notin> set seg \<longrightarrow>
           app conv now \<lparr>verb = PUT, path = ''/api/tasks/'' @ seg, body = b\<rparr> db
             = (respond (fst (call_endpoint conv now update_task [seg] b db)),
                snd (call_endpoint conv now update_task [seg] b db))"
  proof (intro impI)
    assume a: "seg \<noteq> [] \<and> CHR ''/'' \<notin> set seg"
    show "app conv now \<lparr>verb = PUT, path = ''/api/tasks/'' @ seg, body = b\<rparr> db
             = (respond (fst (call_endpoint conv now update_task [seg] b db)),
                snd (call_endpoint conv now update_task [seg] b db))"
      by (rule app_item(2)[OF a[THEN conjunct1] a[THEN conjunct2]])
  qed
  have main: "\<exists>new. find_by_id (snd (call_endpoint conv now update_task [seg] b db)) task_id = Some new
     \<and> (\<forall>members. b = Some (JObj members) \<longrightarrow>
          (get_item members ''title'' = None \<longrightarrow> Task.title new = Task.title old)
        \<and> (get_item members ''description'' = None \<longrightarrow> Task.description new = Task.description old)
        \<and> (get_item members ''status'' = None \<longrightarrow> Task.status new = Task.status old)
        \<and> (\<forall>task. TaskBase_validate b = Inr task \<longrightarrow>
              (\<forall>s. get_item members ''title'' = Some (JStr s) \<longrightarrow> Task.title new = PyStr s)
            \<and> (get_item members ''description'' = Some JNull \<longrightarrow> Task.description new = PyNone)
            \<and> (\<forall>s. get_item members ''description'' = Some (JStr s)
                   \<longrightarrow> Task.description new = PyStr s)
            \<and> (\<forall>s. get_item members ''status'' = Some (JStr (TaskStatus_value s))
                   \<longrightarrow> Task.status new = PyEnum s))
        \<and> (get_item members ''title'' = None \<longrightarrow> new = old))
     \<and> (\<forall>errs. TaskBase_validate b = Inl errs \<longrightarrow>
           new = old
         \<and> call_endpoint conv now update_task [seg] b db
             = (Inl (RequestValidationError errs), db))"
  proof (cases "TaskBase_validate b")
  case (Inl errs)
  have r: "call_endpoint conv now update_task [seg] b db = (Inl (RequestValidationError errs), db)"
    by (rule call_update_rejected[where conv = conv and seg = seg, OF assms(2) Inl])
  show ?thesis
    unfolding r using assms(1) Inl by (intro exI[of _ old]) auto
next
  case (Inr task)
  then obtain ms where b: "b = Some (JObj ms)"
    by (auto simp: TaskBase_validate_def split: option.splits json.splits)
  note v = Inr[unfolded b]
  from update_task_Some[OF assms(1), of now task] obtain new db' where
    u: "TaskService_update_task now db task_id task = (Some new, db')"
       "find_by_id db' task_id = Some new"
       "Task.title new = (if ''title'' \<in> fields_set task then PyStr (TaskBase.title task) else Task.title old)"
       "Task.description new = (if ''description'' \<in> fields_set task
          then (case TaskBase.description task of None \<Rightarrow> PyNone | Some s \<Rightarrow> PyStr s) else Task.description old)"
       "Task.status new = (if ''status'' \<in> fields_set task then PyEnum (TaskBase.status task) else Task.status old)"
    by blast
  have "snd (call_endpoint conv now update_task [seg] b db) = db'"
    using u(1)
    by (simp only: call_update_eq[where conv = conv and seg = seg, OF assms(2) Inr]
          snd_router_update_task snd_conv)
  then have look: "find_by_id (snd (call_endpoint conv now update_task [seg] b db)) task_id = Some new"
    using u(2) by simp
  have t: "get_item ms ''title'' = Some (JStr (TaskBase.title task))" "''title'' \<in> fields_set task"
    using validate_Inr(1,2)[OF v] .
  have d0: "Task.description new = Task.description old" if "get_item ms ''description'' = None"
    using that validate_Inr(3)[OF v] u(4) by simp
  have s0: "Task.status new = Task.status old" if "get_item ms ''status'' = None"
    using that validate_Inr(4)[OF v] u(5) by simp
  have t1: "Task.title new = PyStr s" if "get_item ms ''title'' = Some (JStr s)" for s
    using that t u(3) by simp
  have d1: "Task.description new = PyNone" if "get_item ms ''description'' = Some JNull"
    using validate_Inr(6)[OF v that, symmetric] validate_Inr(3)[OF v] that u(4) by simp
  have d2: "Task.description new = PyStr s" if "get_item ms ''description'' = Some (JStr s)" for s
    using validate_Inr(6)[OF v that, symmetric] validate_Inr(3)[OF v] that u(4) by simp
  have s1: "Task.status new = PyEnum s"
    if "get_item ms ''status'' = Some (JStr (TaskStatus_value s))" for s
    using validate_Inr(8)[OF v that, symmetric] validate_Inr(4)[OF v] that u(5)
    by (simp add: TaskStatus_of_value_value)
  show ?thesis
    using look t d0 s0 t1 d1 d2 s1 Inr b
    by (intro exI[of _ new]) (auto simp del: call_endpoint.simps)
  qed
  have conj4: "\<And>A B C L. A \<and> B \<and> C \<Longrightarrow> L \<Longrightarrow> A \<and> B \<and> C \<and> L" by blast
  from main show ?thesis
  proof (elim exE, goal_cases)
    case (1 new)
    show ?case by (rule exI[of _ new], rule conj4[OF 1 link])
  qed
qed

text \<open>
  The theorem at a completed task with a description: a body with an explicit null
  description and the status \<^verbatim>\<open>PENDING\<close> overwrites both.
\<close>

theorem update_is_presence_aware_witness:
  "find_by_id \<lparr>tasks = [\<lparr>Task.id = Some 1, Task.title = PyStr ''a'',
        Task.description = PyStr ''old'', Task.status = PyEnum COMPLETED,
        Task.created_at = Some ''t0'', Task.updated_at = None\<rparr>], autoincrement = 2\<rparr> 1
     = Some \<lparr>Task.id = Some 1, Task.title = PyStr ''a'',
        Task.description = PyStr ''old'', Task.status = PyEnum COMPLETED,
        Task.created_at = Some ''t0'', Task.updated_at = None\<rparr>
   \<and> (\<exists>new. find_by_id (snd (call_endpoint (\<lambda>s. if s = ''1'' then Some 1 else None) ''t1''
          update_task [''1'']
          (Some (JObj [(''title'', JStr ''a''), (''description'', JNull),
                       (''status'', JStr ''PENDING'')]))
          \<lparr>tasks = [\<lparr>Task.id = Some 1, Task.title = PyStr ''a'',
             Task.description = PyStr ''old'', Task.status = PyEnum COMPLETED,
             Task.created_at = Some ''t0'', Task.updated_at = None\<rparr>], autoincrement = 2\<rparr>)) 1
        = Some new
      \<and> Task.description new = PyNone \<and> Task.status new = PyEnum PENDING)"
proof -
  let ?old = "\<lparr>Task.id = Some 1, Task.title = PyStr ''a'',
        Task.description = PyStr ''old'', Task.status = PyEnum COMPLETED,
        Task.created_at = Some ''t0'', Task.updated_at = None\<rparr>"
  let ?db = "\<lparr>tasks = [?old], autoincrement = 2\<rparr>"
  let ?members = "[(''title'', JStr ''a''), (''description'', JNull), (''status'', JStr ''PENDING'')]"
  let ?task = "\<lparr>TaskBase.title = ''a'', TaskBase.description = None, TaskBase.status = PENDING,
                 fields_set = {''title'', ''description'', ''status''}\<rparr>"
  let ?conv = "\<lambda>s. if s = ''1'' then Some (1::int) else None"
  have f: "find_by_id ?db 1 = Some ?old" by (simp add: find_by_id_def)
  have c: "?conv ''1'' = Some 1" by simp
  have v: "TaskBase_validate (Some (JObj ?members)) = Inr ?task"
    by (simp add: TaskBase_validate_def get_item_def TaskStatus_of_value_def)
  have g: "get_item ?members ''description'' = Some JNull"
    "get_item ?members ''status'' = Some (JStr (TaskStatus_value PENDING))"
    by (simp_all add: get_item_def)
  note th = update_is_presence_aware[where conv = ?conv and seg = "''1''" and now = "''t1''"
      and b = "Some (JObj ?members)", OF f c]
  from th show ?thesis
  proof (elim exE conjE, goal_cases)
    case (1 new)
    note m = 1(2)[rule_format, OF refl]
    note w = m[THEN conjunct2, THEN conjunct2, THEN conjunct2, THEN conjunct1, rule_format, OF v]
    have "Task.description new = PyNone"
      using w[THEN conjunct2, THEN conjunct1] g(1) by simp
    moreover have "Task.status new = PyEnum PENDING"
      using w[THEN conjunct2, THEN conjunct2, THEN conjunct2, rule_format, OF g(2)] .
    ultimately show ?case using 1(1) f by (simp del: call_endpoint.simps)
  qed
qed

text \<open>
  Claim C9 as stated fails: with a completed task 1 that has a description in the store, a
  PUT whose body supplies only \<^verbatim>\<open>status\<close>, and one whose body supplies only a null
  \<^verbatim>\<open>description\<close>, are answered 422 for the missing title, and the row keeps its
  status and its description.
\<close>

theorem update_supplied_field_counterexample:
  "app (\<lambda>s. if s = ''1'' then Some 1 else None) ''t1''
       \<lparr>verb = PUT, path = ''/api/tasks/1'', body = Some (JObj [(''status'', JStr ''PENDING'')])\<rparr>
       \<lparr>tasks = [\<lparr>Task.id = Some 1, Task.title = PyStr ''a'', Task.description = PyStr ''old'',
            Task.status = PyEnum COMPLETED, Task.created_at = Some ''t0'', Task.updated_at = None\<rparr>],
          autoincrement = 2\<rparr>
     = (UnprocessableEntity [Missing ''title''],
        \<lparr>tasks = [\<lparr>Task.id = Some 1, Task.title = PyStr ''a'', Task.description = PyStr ''old'',
            Task.status = PyEnum COMPLETED, Task.created_at = Some ''t0'', Task.updated_at = None\<rparr>],
          autoincrement = 2\<rparr>)
   \<and> app (\<lambda>s. if s = ''1'' then Some 1 else None) ''t1''
       \<lparr>verb = PUT, path = ''/api/tasks/1'', body = Some (JObj [(''description'', JNull)])\<rparr>
       \<lparr>tasks = [\<lparr>Task.id = Some 1, Task.title = PyStr ''a'', Task.description = PyStr ''old'',
            Task.status = PyEnum COMPLETED, Task.created_at = Some ''t0'', Task.updated_at = None\<rparr>],
          autoincrement = 2\<rparr>
     = (UnprocessableEntity [Missing ''title''],
        \<lparr>tasks = [\<lparr>Task.id = Some 1, Task.title = PyStr ''a'', Task.description = PyStr ''old'',
            Task.status = PyEnum COMPLETED, Task.created_at = Some ''t0'', Task.updated_at = None\<rparr>],
          autoincrement = 2\<rparr>)"
  by code_simp

text \<open>
  Claim C10. \<^verbatim>\<open>get_task\<close> and \<^verbatim>\<open>get_all_tasks\<close> return the session as they got
  it; \<^verbatim>\<open>create_task\<close> appends one row and every task that could be fetched before is
  fetched unchanged after; \<^verbatim>\<open>update_task(id, input)\<close> and \<^verbatim>\<open>delete_task(id)\<close>
  leave the rows with another id as they were, in all fields and in their order.
\<close>

theorem operations_touch_only_the_addressed_row:
  "snd (TaskService_get_task db task_id) = db
   \<and> snd (TaskService_get_all_tasks db) = db
   \<and> (\<exists>t. TaskService_create_task now db task
          = (t, db\<lparr>tasks := tasks db @ [t], autoincrement := autoincrement db + 1\<rparr>))
   \<and> (\<forall>j t. find_by_id db j = Some t
          \<longrightarrow> find_by_id (snd (TaskService_create_task now db task)) j = Some t)
   \<and> (\<forall>j. j \<noteq> task_id
          \<longrightarrow> find_by_id (snd (TaskService_update_task now db task_id task)) j = find_by_id db j)
   \<and> filter (\<lambda>r. Task.id r \<noteq> Some task_id) (tasks (snd (TaskService_update_task now db task_id task)))
       = filter (\<lambda>r. Task.id r \<noteq> Some task_id) (tasks db)
   \<and> (\<forall>j. j \<noteq> task_id
          \<longrightarrow> find_by_id (snd (TaskService_delete_task db task_id)) j = find_by_id db j)
   \<and> filter (\<lambda>r. Task.id r \<noteq> Some task_id) (tasks (snd (TaskService_delete_task db task_id)))
       = filter (\<lambda>r. Task.id r \<noteq> Some task_id) (tasks db)"
proof -
  have create: "\<exists>t. TaskService_create_task now db task
          = (t, db\<lparr>tasks := tasks db @ [t], autoincrement := autoincrement db + 1\<rparr>)"
    by (simp add: create_task_eq Let_def)
  have create_old: "find_by_id (snd (TaskService_create_task now db task)) j = Some t"
    if "find_by_id db j = Some t" for j t
    using that by (simp add: find_by_id_def create_task_eq Let_def find_id_append)
  have upd: "(\<forall>j. j \<noteq> task_id
          \<longrightarrow> find_by_id (snd (TaskService_update_task now db task_id task)) j = find_by_id db j)
     \<and> filter (\<lambda>r. Task.id r \<noteq> Some task_id) (tasks (snd (TaskService_update_task now db task_id task)))
       = filter (\<lambda>r. Task.id r \<noteq> Some task_id) (tasks db)"
  proof (cases "find_by_id db task_id")
    case None
    then show ?thesis by (simp add: update_task_None)
  next
    case (Some old)
    from update_task_Some[OF Some, of now task] show ?thesis by auto
  qed
  have del: "(\<forall>j. j \<noteq> task_id
          \<longrightarrow> find_by_id (snd (TaskService_delete_task db task_id)) j = find_by_id db j)
     \<and> filter (\<lambda>r. Task.id r \<noteq> Some task_id) (tasks (snd (TaskService_delete_task db task_id)))
       = filter (\<lambda>r. Task.id r \<noteq> Some task_id) (tasks db)"
  proof (cases "find_by_id db task_id")
    case None
    then show ?thesis by (simp add: delete_task_None)
  next
    case (Some t)
    then show ?thesis by (simp add: delete_task_Some find_by_id_def find_id_filter)
  qed
  from create create_old upd del show ?thesis
    by (simp add: TaskService_get_task_def TaskService_get_all_tasks_def)
qed

text \<open>The theorem at a store with tasks 1 and 2: updating or deleting 1 leaves 2.\<close>

theorem operations_touch_only_the_addressed_row_witness:
  "find_by_id (snd (TaskService_update_task ''t2''
      \<lparr>tasks = [\<lparr>Task.id = Some 1, Task.title = PyStr ''a'', Task.description = PyNone,
          Task.status = PyEnum PENDING, Task.created_at = Some ''t0'', Task.updated_at = None\<rparr>,
        \<lparr>Task.id = Some 2, Task.title = PyStr ''b'', Task.description = PyNone,
          Task.status = PyEnum COMPLETED, Task.created_at = Some ''t1'', Task.updated_at = None\<rparr>],
      autoincrement = 3\<rparr> 1
      \<lparr>TaskBase.title = ''c'', TaskBase.description = None, TaskBase.status = PENDING,
        fields_set = {''title''}\<rparr>)) 2
   = Some \<lparr>Task.id = Some 2, Task.title = PyStr ''b'', Task.description = PyNone,
          Task.status = PyEnum COMPLETED, Task.created_at = Some ''t1'', Task.updated_at = None\<rparr>
   \<and> find_by_id (snd (TaskService_delete_task
      \<lparr>tasks = [\<lparr>Task.id = Some 1, Task.title = PyStr ''a'', Task.description = PyNone,
          Task.status = PyEnum PENDING, Task.created_at = Some ''t0'', Task.updated_at = None\<rparr>,
        \<lparr>Task.id = Some 2, Task.title = PyStr ''b'', Task.description = PyNone,
          Task.status = PyEnum COMPLETED, Task.created_at = Some ''t1'', Task.updated_at = None\<rparr>],
      autoincrement = 3\<rparr> 1)) 2
   = Some \<lparr>Task.id = Some 2, Task.title = PyStr ''b'', Task.description = PyNone,
          Task.status = PyEnum COMPLETED, Task.created_at = Some ''t1'', Task.updated_at = None\<rparr>"
proof -
  let ?r1 = "\<lparr>Task.id = Some 1, Task.title = PyStr ''a'', Task.description = PyNone,
          Task.status = PyEnum PENDING, Task.created_at = Some ''t0'', Task.updated_at = None\<rparr>"
  let ?r2 = "\<lparr>Task.id = Some 2, Task.title = PyStr ''b'', Task.description = PyNone,
          Task.status = PyEnum COMPLETED, Task.created_at = Some ''t1'', Task.updated_at = None\<rparr>"
  let ?db = "\<lparr>tasks = [?r1, ?r2], autoincrement = 3\<rparr>"
  let ?task = "\<lparr>TaskBase.title = ''c'', TaskBase.description = None, TaskBase.status = PENDING,
        fields_set = {''title''}\<rparr>"
  have f: "find_by_id ?db 2 = Some ?r2" by (simp add: find_by_id_def)
  have ne: "(2::int) \<noteq> 1" by simp
  from operations_touch_only_the_addressed_row[of ?db 1 "''t2''" ?task] ne
  have "find_by_id (snd (TaskService_update_task ''t2'' ?db 1 ?task)) 2 = find_by_id ?db 2"
    "find_by_id (snd (TaskService_delete_task ?db 1)) 2 = find_by_id ?db 2"
    by blast+
  with f show ?thesis by simp
qed

end
